theory Spec2Isabelle
  imports Main "HOL-Library.AList"
begin

section \<open>Values, objects and the heap\<close>

text \<open>
  The form library reads and writes a caller-owned value tree through closures. Objects
  and arrays are shared by reference, so a value is either a primitive or the address of
  a heap cell. Numbers are IEEE doubles in the program; they are kept abstract here (the
  type parameter \<open>'n\<close>), and every operation on them that the program takes from the
  JavaScript runtime or from the package \<^verbatim>\<open>@st-lib/is\<close> is a field of the record
  \<open>js\<close> below.

  A cell has a kind (ordinary object, array with its elements, \<^verbatim>\<open>Date\<close> with its time
  value, boxed \<^verbatim>\<open>Boolean\<close>) and a list of own data properties. Arrays are dense: a hole
  is represented by \<open>V_undefined\<close>. Getters, proxies, frozen objects and inherited
  properties are not part of the model.
\<close>

type_synonym addr = nat

datatype 'n jsval =
    V_undefined
  | V_null
  | V_bool bool
  | V_num 'n
  | V_str string
  | V_fun nat
  | V_ref addr

datatype 'n kind =
    K_plain
  | K_array "'n jsval list"
  | K_date 'n
  | K_boolean bool

datatype 'n cell = Cell (kind: "'n kind") (props: "(string \<times> 'n jsval) list")

type_synonym 'n heap = "'n cell list"

text \<open>
  What the program imports. \<open>is_number\<close>, \<open>is_number_string\<close> and \<open>is_valid_time\<close>
  are the value-dependent parts of \<^verbatim>\<open>isNumber\<close>, \<^verbatim>\<open>isNumberString\<close> and \<^verbatim>\<open>isDate\<close> of
  \<^verbatim>\<open>@st-lib/is\<close>; the others are runtime conversions.
\<close>

record 'n js =
  is_number :: "'n \<Rightarrow> bool"
  is_number_string :: "string \<Rightarrow> bool"
  is_valid_time :: "'n \<Rightarrow> bool"
  number_to_string :: "'n \<Rightarrow> string"
  to_number :: "string \<Rightarrow> 'n"
  time_clip :: "'n \<Rightarrow> 'n"
  date_parse :: "string \<Rightarrow> 'n"
  date_to_string :: "'n \<Rightarrow> string"
  number_of_nat :: "nat \<Rightarrow> 'n"
  json_other :: "'n heap \<Rightarrow> 'n jsval \<Rightarrow> string"

text \<open>Reading a cell. An address that was never allocated reads as an empty object.\<close>

definition cell_at :: "'n heap \<Rightarrow> addr \<Rightarrow> 'n cell" where
  "cell_at h a = (if a < length h then h ! a else Cell K_plain [])"

definition alloc :: "'n cell \<Rightarrow> 'n heap \<Rightarrow> addr \<times> 'n heap" where
  "alloc c h = (length h, h @ [c])"

subsection \<open>Property keys\<close>

text \<open>
  A path component, and the key of a property access, is a string or a number
  (an array index). \<open>decimal\<close> is the string conversion of an index.
\<close>

datatype key = P_key string | P_index nat

definition digit_char :: "nat \<Rightarrow> char" where
  "digit_char d = ''0123456789'' ! d"

fun decimal :: "nat \<Rightarrow> string" where
  "decimal n = (if n < 10 then [digit_char n] else decimal (n div 10) @ [digit_char (n mod 10)])"

declare decimal.simps [simp del]

definition is_digit :: "char \<Rightarrow> bool" where
  "is_digit c = (48 \<le> (of_char c :: nat) \<and> (of_char c :: nat) \<le> 57)"

definition decimal_value :: "string \<Rightarrow> nat" where
  "decimal_value s = foldl (\<lambda>n c. 10 * n + (of_char c - 48)) 0 s"

text \<open>
  A string names an array index when it is the canonical decimal form of a number below
  \<open>2^32 - 1\<close>.
\<close>

definition array_index :: "string \<Rightarrow> nat option" where
  "array_index s =
     (if s \<noteq> [] \<and> list_all is_digit s \<and> (length s = 1 \<or> hd s \<noteq> CHR ''0'')
         \<and> decimal_value s < 4294967295
      then Some (decimal_value s) else None)"

fun key_index :: "key \<Rightarrow> nat option" where
  "key_index (P_index i) = (if i < 4294967295 then Some i else None)"
| "key_index (P_key s) = array_index s"

fun key_name :: "key \<Rightarrow> string" where
  "key_name (P_key s) = s"
| "key_name (P_index i) = decimal i"

definition lookup :: "(string \<times> 'n jsval) list \<Rightarrow> string \<Rightarrow> 'n jsval" where
  "lookup ps k = (case map_of ps k of None \<Rightarrow> V_undefined | Some v \<Rightarrow> v)"

text \<open>\<^verbatim>\<open>v[key]\<close> on an object: an element or the length of an array, an own property otherwise.\<close>

definition get_prop :: "'n js \<Rightarrow> 'n cell \<Rightarrow> key \<Rightarrow> 'n jsval" where
  "get_prop env c k =
     (case kind c of
        K_array elems \<Rightarrow>
          (case key_index k of
             Some i \<Rightarrow> (if i < length elems then elems ! i else V_undefined)
           | None \<Rightarrow>
               if key_name k = ''length'' then V_num (number_of_nat env (length elems))
               else lookup (props c) (key_name k))
      | _ \<Rightarrow> lookup (props c) (key_name k))"

text \<open>
  \<^verbatim>\<open>v[key] = x\<close>. Writing an index of an array at or past its end extends the array.
  Assigning to the length of an array resizes it or throws a \<^verbatim>\<open>RangeError\<close>, depending on
  the number the value converts to; the model stops there (\<open>None\<close>).
\<close>

definition set_index :: "'n jsval list \<Rightarrow> nat \<Rightarrow> 'n jsval \<Rightarrow> 'n jsval list" where
  "set_index elems i x =
     (if i < length elems then elems[i := x]
      else elems @ replicate (i - length elems) V_undefined @ [x])"

definition set_prop :: "'n cell \<Rightarrow> key \<Rightarrow> 'n jsval \<Rightarrow> 'n cell option" where
  "set_prop c k x =
     (case kind c of
        K_array elems \<Rightarrow>
          (case key_index k of
             Some i \<Rightarrow> Some (Cell (K_array (set_index elems i x)) (props c))
           | None \<Rightarrow>
               if key_name k = ''length'' then None
               else Some (Cell (kind c) (AList.update (key_name k) x (props c))))
      | _ \<Rightarrow> Some (Cell (kind c) (AList.update (key_name k) x (props c))))"

section \<open>Schemas and fields\<close>

text \<open>
  A scheme is an arbitrary value that \<^verbatim>\<open>createField\<close> inspects: a string (a tag, or any
  other string), an array, an object (its entries in enumeration order, keys distinct), or
  anything else, given by its string conversion.
\<close>

datatype scheme =
    S_str string
  | S_arr "scheme list"
  | S_obj "(string \<times> scheme) list"
  | S_other string

text \<open>
  The setter closures of the program, one constructor per closure site:
  the caller's \<^verbatim>\<open>setData\<close>, the closure of \<^verbatim>\<open>createObjectField\<close>
  (\<^verbatim>\<open>v[key] = value; setValue(v)\<close>) and the closure of \<^verbatim>\<open>createArrayField\<close>
  (\<^verbatim>\<open>v[index] = newValue; setValue(v)\<close>), each with the address of its \<^verbatim>\<open>v\<close>.
\<close>

datatype setter =
    SetData
  | SetKey addr string setter
  | SetIndex addr nat setter

datatype ftype = T_string | T_number | T_boolean | T_date | T_file

record 'n scalar =
  type :: ftype
  path :: "key list"
  required :: bool
  "value" :: "'n jsval"
  setValue :: setter

text \<open>
  A field is a scalar field, an array field (its path, the address of its backing array
  \<^verbatim>\<open>v\<close>, the sub-fields built from the elements, its setter), an object of fields, or a
  value that is no field at all (given by its \<^verbatim>\<open>typeof\<close>).
\<close>

datatype 'n field =
    Scalar "'n scalar"
  | ArrayField "key list" addr "'n field list" setter
  | ObjectField "(string \<times> 'n field) list"
  | NotAField string

datatype 'n error =
    UnexpectedFieldType string
  | UnexpectedField string
  | Required "key list" "'n jsval"
  | ArrayLengthWrite

section \<open>The field-tree builder\<close>

subsection \<open>Type tests\<close>

text \<open>
  Modelled from the spec: \<^verbatim>\<open>isString\<close>, \<^verbatim>\<open>isNumber\<close>, \<^verbatim>\<open>isNumberString\<close> and \<^verbatim>\<open>isDate\<close>
  are imported from \<^verbatim>\<open>@st-lib/is\<close>, which is not part of the sources. They accept a
  raw string, a raw number, a well-formed numeric string and a genuine date; which
  numbers, strings and time values pass is left to \<open>js\<close>.
\<close>

definition isString :: "'n jsval \<Rightarrow> bool" where
  "isString v = (case v of V_str s \<Rightarrow> True | _ \<Rightarrow> False)"

definition isNumber :: "'n js \<Rightarrow> 'n jsval \<Rightarrow> bool" where
  "isNumber env v = (case v of V_num n \<Rightarrow> is_number env n | _ \<Rightarrow> False)"

definition isNumberString :: "'n js \<Rightarrow> 'n jsval \<Rightarrow> bool" where
  "isNumberString env v = (case v of V_str s \<Rightarrow> is_number_string env s | _ \<Rightarrow> False)"

definition isDate :: "'n js \<Rightarrow> 'n heap \<Rightarrow> 'n jsval \<Rightarrow> bool" where
  "isDate env h v =
     (case v of
        V_ref a \<Rightarrow> (case kind (cell_at h a) of K_date t \<Rightarrow> is_valid_time env t | _ \<Rightarrow> False)
      | _ \<Rightarrow> False)"

definition isArray :: "'n heap \<Rightarrow> 'n jsval \<Rightarrow> bool" where
  "isArray h v =
     (case v of
        V_ref a \<Rightarrow> (case kind (cell_at h a) of K_array elems \<Rightarrow> True | _ \<Rightarrow> False)
      | _ \<Rightarrow> False)"

text \<open>\<^verbatim>\<open>typeof value === 'object' && null != value\<close>\<close>

definition isObject :: "'n jsval \<Rightarrow> bool" where
  "isObject v = (case v of V_ref a \<Rightarrow> True | _ \<Rightarrow> False)"

definition typeof_function :: "'n jsval \<Rightarrow> bool" where
  "typeof_function v = (case v of V_fun i \<Rightarrow> True | _ \<Rightarrow> False)"

definition typeof_number :: "'n jsval \<Rightarrow> bool" where
  "typeof_number v = (case v of V_num n \<Rightarrow> True | _ \<Rightarrow> False)"

definition typeof_string :: "'n jsval \<Rightarrow> bool" where
  "typeof_string v = (case v of V_str s \<Rightarrow> True | _ \<Rightarrow> False)"

definition isFile :: "'n js \<Rightarrow> 'n heap \<Rightarrow> 'n jsval \<Rightarrow> bool" where
  "isFile env h it =
     (case it of
        V_ref a \<Rightarrow>
          (let c = cell_at h a in
             typeof_function (get_prop env c (P_key ''stream''))
           \<and> typeof_function (get_prop env c (P_key ''arrayBuffer''))
           \<and> typeof_number (get_prop env c (P_key ''lastModified''))
           \<and> typeof_string (get_prop env c (P_key ''name''))
           \<and> typeof_number (get_prop env c (P_key ''size''))
           \<and> typeof_function (get_prop env c (P_key ''slice''))
           \<and> typeof_function (get_prop env c (P_key ''text''))
           \<and> typeof_string (get_prop env c (P_key ''type'')))
      | _ \<Rightarrow> False)"

subsection \<open>Coercions of the raw value\<close>

text \<open>
  \<^verbatim>\<open>String(value)\<close>, which the program calls on strings, numbers and dates only; on the
  other values the result is left open (the empty string).
\<close>

definition String_of :: "'n js \<Rightarrow> 'n heap \<Rightarrow> 'n jsval \<Rightarrow> string" where
  "String_of env h v =
     (case v of
        V_str s \<Rightarrow> s
      | V_num n \<Rightarrow> number_to_string env n
      | V_ref a \<Rightarrow> (case kind (cell_at h a) of K_date t \<Rightarrow> date_to_string env t | _ \<Rightarrow> [])
      | _ \<Rightarrow> [])"

text \<open>\<^verbatim>\<open>value.toString()\<close>, which the program calls on numbers only.\<close>

definition toString_of :: "'n js \<Rightarrow> 'n jsval \<Rightarrow> string" where
  "toString_of env v = (case v of V_num n \<Rightarrow> number_to_string env n | _ \<Rightarrow> [])"

text \<open>The characters of a string value.\<close>

definition chars_of :: "'n jsval \<Rightarrow> string" where
  "chars_of v = (case v of V_str s \<Rightarrow> s | _ \<Rightarrow> [])"

text \<open>Unary plus, which the program applies to numbers and to numeric strings.\<close>

definition plus_of :: "'n js \<Rightarrow> 'n jsval \<Rightarrow> 'n" where
  "plus_of env v = (case v of V_num n \<Rightarrow> n | V_str s \<Rightarrow> to_number env s | _ \<Rightarrow> to_number env [])"

text \<open>\<^verbatim>\<open>new Date(n)\<close> and \<^verbatim>\<open>new Date(s)\<close> allocate a date object.\<close>

definition new_Date :: "'n \<Rightarrow> 'n heap \<Rightarrow> 'n jsval \<times> 'n heap" where
  "new_Date t h = (let (a, h') = alloc (Cell (K_date t) []) h in (V_ref a, h'))"

definition date :: "'n js \<Rightarrow> 'n jsval \<Rightarrow> 'n heap \<Rightarrow> 'n jsval \<times> 'n heap" where
  "date env inp h =
     (if isDate env h inp then (inp, h)
      else if isNumber env inp \<or> isNumberString env inp then
        (let (o', h') = new_Date (time_clip env (plus_of env inp)) h
         in (if isDate env h' o' then o' else V_null, h'))
      else if isString inp then
        (let (o', h') = new_Date (date_parse env (chars_of inp)) h
         in (if isDate env h' o' then o' else V_null, h'))
      else (V_null, h))"

definition boolean_of :: "'n heap \<Rightarrow> 'n jsval \<Rightarrow> 'n jsval" where
  "boolean_of h v =
     (case v of
        V_bool b \<Rightarrow> V_bool b
      | V_ref a \<Rightarrow> (case kind (cell_at h a) of K_boolean b \<Rightarrow> V_bool b | _ \<Rightarrow> V_null)
      | _ \<Rightarrow> V_null)"

subsection \<open>createScalarField, createArrayField, createObjectField, createField\<close>

definition createScalarField ::
  "ftype \<Rightarrow> key list \<Rightarrow> bool \<Rightarrow> 'n jsval \<Rightarrow> setter \<Rightarrow> 'n field" where
  "createScalarField ty p req v st =
     Scalar \<lparr>type = ty, path = p, required = req, value = v, setValue = st\<rparr>"

text \<open>
  \<open>createElements\<close> is the \<^verbatim>\<open>v.map\<close> of \<^verbatim>\<open>createArrayField\<close> and \<open>createEntries\<close> the
  \<^verbatim>\<open>for (const key in type)\<close> of \<^verbatim>\<open>createObjectField\<close>; both stop at the first
  exception. The pattern \<^verbatim>\<open>[type]\<close> binds \<^verbatim>\<open>undefined\<close> when the scheme array is empty.
\<close>

function
  createField ::
    "'n js \<Rightarrow> scheme \<Rightarrow> key list \<Rightarrow> 'n jsval \<Rightarrow> setter \<Rightarrow> 'n heap \<Rightarrow> 'n error + 'n field \<times> 'n heap"
and createArrayField ::
    "'n js \<Rightarrow> scheme list \<Rightarrow> key list \<Rightarrow> 'n jsval \<Rightarrow> setter \<Rightarrow> 'n heap \<Rightarrow> 'n error + 'n field \<times> 'n heap"
and createElements ::
    "'n js \<Rightarrow> scheme \<Rightarrow> key list \<Rightarrow> addr \<Rightarrow> setter \<Rightarrow> nat \<Rightarrow> 'n jsval list \<Rightarrow> 'n heap
       \<Rightarrow> 'n error + 'n field list \<times> 'n heap"
and createObjectField ::
    "'n js \<Rightarrow> (string \<times> scheme) list \<Rightarrow> key list \<Rightarrow> 'n jsval \<Rightarrow> setter \<Rightarrow> 'n heap
       \<Rightarrow> 'n error + 'n field \<times> 'n heap"
and createEntries ::
    "'n js \<Rightarrow> (string \<times> scheme) list \<Rightarrow> key list \<Rightarrow> addr \<Rightarrow> setter \<Rightarrow> 'n heap
       \<Rightarrow> 'n error + (string \<times> 'n field) list \<times> 'n heap"
where
  "createField env (S_str tag) p v st h =
     (if tag = ''string'' \<or> tag = ''string?'' then
        Inr (createScalarField T_string p (''string'' = tag)
              (if isString v \<or> isNumber env v \<or> isDate env h v
               then V_str (String_of env h v) else V_null) st, h)
      else if tag = ''number'' \<or> tag = ''number?'' then
        Inr (createScalarField T_number p (''number'' = tag)
              (if isNumber env v then V_str (toString_of env v)
               else if isString v then v else V_null) st, h)
      else if tag = ''boolean'' \<or> tag = ''boolean?'' then
        Inr (createScalarField T_boolean p (''boolean'' = tag) (boolean_of h v) st, h)
      else if tag = ''date'' \<or> tag = ''date?'' then
        (let (d, h') = date env v h
         in Inr (createScalarField T_date p (''date'' = tag) d st, h'))
      else if tag = ''file'' \<or> tag = ''file?'' then
        Inr (createScalarField T_file p (''file'' = tag)
              (if isFile env h v then v else V_null) st, h)
      else Inl (UnexpectedFieldType tag))"
| "createField env (S_arr ts) p v st h = createArrayField env ts p v st h"
| "createField env (S_obj kts) p v st h = createObjectField env kts p v st h"
| "createField env (S_other s) p v st h = Inl (UnexpectedFieldType s)"
| "createArrayField env ts p v st h =
     (let (a, h1) = (case v of
                       V_ref a \<Rightarrow> if isArray h v then (a, h) else alloc (Cell (K_array []) []) h
                     | _ \<Rightarrow> alloc (Cell (K_array []) []) h);
          elems = (case kind (cell_at h1 a) of K_array es \<Rightarrow> es | _ \<Rightarrow> [])
      in case ts of
           [] \<Rightarrow> (if elems = [] then Inr (ArrayField p a [] st, h1)
                  else Inl (UnexpectedFieldType ''undefined''))
         | t # ts' \<Rightarrow>
             (case createElements env t p a st 0 elems h1 of
                Inl e \<Rightarrow> Inl e
              | Inr (fs, h2) \<Rightarrow> Inr (ArrayField p a fs st, h2)))"
| "createElements env t p a st i [] h = Inr ([], h)"
| "createElements env t p a st i (x # xs) h =
     (case createField env t (p @ [P_index i]) x (SetIndex a i st) h of
        Inl e \<Rightarrow> Inl e
      | Inr (f, h1) \<Rightarrow>
          (case createElements env t p a st (Suc i) xs h1 of
             Inl e \<Rightarrow> Inl e
           | Inr (fs, h2) \<Rightarrow> Inr (f # fs, h2)))"
| "createObjectField env kts p v st h =
     (let (a, h1) = (case v of
                       V_ref a \<Rightarrow> (a, h)
                     | _ \<Rightarrow> alloc (Cell K_plain []) h)
      in case createEntries env kts p a st h1 of
           Inl e \<Rightarrow> Inl e
         | Inr (o', h2) \<Rightarrow> Inr (ObjectField o', h2))"
| "createEntries env [] p a st h = Inr ([], h)"
| "createEntries env ((k, t) # kts) p a st h =
     (case createField env t (p @ [P_key k]) (get_prop env (cell_at h a) (P_key k))
             (SetKey a k st) h of
        Inl e \<Rightarrow> Inl e
      | Inr (f, h1) \<Rightarrow>
          (case createEntries env kts p a st h1 of
             Inl e \<Rightarrow> Inl e
           | Inr (fs, h2) \<Rightarrow> Inr ((k, f) # fs, h2)))"
  by pat_completeness auto

termination createField
  by (relation "measures [
    (\<lambda>x. case x of
       Inl (Inl (env, s, p, v, st, h)) \<Rightarrow> size s
     | Inl (Inr (env, ts, p, v, st, h)) \<Rightarrow> size (S_arr ts)
     | Inr (Inl (env, t, p, a, st, i, xs, h)) \<Rightarrow> size t
     | Inr (Inr (Inl (env, kts, p, v, st, h))) \<Rightarrow> size (S_obj kts)
     | Inr (Inr (Inr (env, kts, p, a, st, h))) \<Rightarrow> size (S_obj kts)),
    (\<lambda>x. case x of
       Inl (Inl (env, s, p, v, st, h)) \<Rightarrow> 2
     | Inl (Inr (env, ts, p, v, st, h)) \<Rightarrow> 1
     | Inr (Inl (env, t, p, a, st, i, xs, h)) \<Rightarrow> 3 + length xs
     | Inr (Inr (Inl (env, kts, p, v, st, h))) \<Rightarrow> 1
     | Inr (Inr (Inr (env, kts, p, a, st, h))) \<Rightarrow> 0)]") auto

text \<open>
  \<^verbatim>\<open>createForm(scheme)(data, setData)\<close>: the root object field, with the empty path and the
  caller's callback as its setter.
\<close>

definition createForm ::
  "'n js \<Rightarrow> (string \<times> scheme) list \<Rightarrow> 'n jsval \<Rightarrow> 'n heap \<Rightarrow> 'n error + 'n field \<times> 'n heap" where
  "createForm env sch data h = createObjectField env sch [] data SetData h"

section \<open>Calling fields\<close>

text \<open>
  The state a call acts on: the heap, and the arguments with which the caller's
  \<^verbatim>\<open>setData\<close> has been invoked so far (the callback is the caller's; all the program
  does with it is call it).
\<close>

record 'n state =
  heap :: "'n heap"
  calls :: "'n jsval list"

fun apply_setter :: "setter \<Rightarrow> 'n jsval \<Rightarrow> 'n state \<Rightarrow> 'n error + 'n state" where
  "apply_setter SetData x s = Inr (s\<lparr>calls := calls s @ [x]\<rparr>)"
| "apply_setter (SetKey a k st) x s =
     (case set_prop (cell_at (heap s) a) (P_key k) x of
        None \<Rightarrow> Inl ArrayLengthWrite
      | Some c \<Rightarrow> apply_setter st (V_ref a) (s\<lparr>heap := (heap s)[a := c]\<rparr>))"
| "apply_setter (SetIndex a i st) x s =
     (case set_prop (cell_at (heap s) a) (P_index i) x of
        None \<Rightarrow> Inl ArrayLengthWrite
      | Some c \<Rightarrow> apply_setter st (V_ref a) (s\<lparr>heap := (heap s)[a := c]\<rparr>))"

text \<open>
  The function \<^verbatim>\<open>field(...args)\<close> of \<^verbatim>\<open>createScalarField\<close>: with an argument it calls
  \<^verbatim>\<open>setValue(args[0])\<close> and returns \<^verbatim>\<open>args[0]\<close>; without one it returns the \<^verbatim>\<open>value\<close>
  the field was created with.
\<close>

definition scalar_call ::
  "'n scalar \<Rightarrow> 'n jsval list \<Rightarrow> 'n state \<Rightarrow> 'n error + 'n jsval \<times> 'n state" where
  "scalar_call f args s =
     (if args \<noteq> [] then
        (case apply_setter (setValue f) (hd args) s of
           Inl e \<Rightarrow> Inl e
         | Inr s' \<Rightarrow> Inr (hd args, s'))
      else Inr (value f, s))"

text \<open>The function \<^verbatim>\<open>field(...args)\<close> of \<^verbatim>\<open>createArrayField\<close>, over the array \<^verbatim>\<open>v\<close> at \<open>a\<close>.\<close>

definition array_call ::
  "addr \<Rightarrow> setter \<Rightarrow> 'n jsval list \<Rightarrow> 'n state \<Rightarrow> 'n error + 'n jsval \<times> 'n state" where
  "array_call a st args s =
     (if args \<noteq> [] then
        (case apply_setter st (hd args) s of
           Inl e \<Rightarrow> Inl e
         | Inr s' \<Rightarrow> Inr (hd args, s'))
      else Inr (V_ref a, s))"

subsection \<open>The array methods of the runtime\<close>

definition elements :: "'n heap \<Rightarrow> addr \<Rightarrow> 'n jsval list" where
  "elements h a = (case kind (cell_at h a) of K_array es \<Rightarrow> es | _ \<Rightarrow> [])"

definition write_elements :: "'n heap \<Rightarrow> addr \<Rightarrow> 'n jsval list \<Rightarrow> 'n heap" where
  "write_elements h a es = h[a := Cell (K_array es) (props (cell_at h a))]"

definition Array_push :: "'n jsval list \<Rightarrow> 'n jsval list \<Rightarrow> nat \<times> 'n jsval list" where
  "Array_push es items = (length (es @ items), es @ items)"

definition Array_unshift :: "'n jsval list \<Rightarrow> 'n jsval list \<Rightarrow> nat \<times> 'n jsval list" where
  "Array_unshift es items = (length (items @ es), items @ es)"

definition Array_pop :: "'n jsval list \<Rightarrow> 'n jsval \<times> 'n jsval list" where
  "Array_pop es = (if es = [] then (V_undefined, []) else (last es, butlast es))"

definition Array_shift :: "'n jsval list \<Rightarrow> 'n jsval \<times> 'n jsval list" where
  "Array_shift es = (case es of [] \<Rightarrow> (V_undefined, []) | x # xs \<Rightarrow> (x, xs))"

text \<open>
  \<^verbatim>\<open>Array.prototype.splice(start, deleteCount, ...items)\<close> on integer arguments. A negative
  start counts from the end. When the call passes no delete count at all (\<open>None\<close>),
  everything from the start on is removed; a count that is passed is clamped to the
  range from 0 to the number of elements after the start.
\<close>

definition Array_splice ::
  "'n jsval list \<Rightarrow> int \<Rightarrow> int option \<Rightarrow> 'n jsval list \<Rightarrow> 'n jsval list \<times> 'n jsval list" where
  "Array_splice es start deleteCount items =
     (let len = int (length es);
          actualStart = (if start < 0 then max (len + start) 0 else min start len);
          actualDeleteCount =
            (case deleteCount of
               None \<Rightarrow> len - actualStart
             | Some dc \<Rightarrow> min (max dc 0) (len - actualStart))
      in (take (nat actualDeleteCount) (drop (nat actualStart) es),
          take (nat actualStart) es @ items @ drop (nat actualStart + nat actualDeleteCount) es))"

subsection \<open>The mutation helpers of an array field\<close>

text \<open>
  Each helper mutates \<^verbatim>\<open>v\<close>, calls \<^verbatim>\<open>field(v)\<close> and returns what the array method
  returned. \<^verbatim>\<open>splice\<close> declares \<^verbatim>\<open>deleteCount: number = 0\<close> and always passes it on.
\<close>

definition splice ::
  "addr \<Rightarrow> setter \<Rightarrow> int \<Rightarrow> int option \<Rightarrow> 'n jsval list \<Rightarrow> 'n state
     \<Rightarrow> 'n error + 'n jsval list \<times> 'n state" where
  "splice a st from deleteCount items s =
     (let dc = (case deleteCount of None \<Rightarrow> 0 | Some d \<Rightarrow> d);
          (o', es) = Array_splice (elements (heap s) a) from (Some dc) items;
          s1 = s\<lparr>heap := write_elements (heap s) a es\<rparr>
      in case array_call a st [V_ref a] s1 of
           Inl e \<Rightarrow> Inl e
         | Inr (r, s2) \<Rightarrow> Inr (o', s2))"

definition push ::
  "addr \<Rightarrow> setter \<Rightarrow> 'n jsval list \<Rightarrow> 'n state \<Rightarrow> 'n error + nat \<times> 'n state" where
  "push a st items s =
     (let (o', es) = Array_push (elements (heap s) a) items;
          s1 = s\<lparr>heap := write_elements (heap s) a es\<rparr>
      in case array_call a st [V_ref a] s1 of
           Inl e \<Rightarrow> Inl e
         | Inr (r, s2) \<Rightarrow> Inr (o', s2))"

definition unshift ::
  "addr \<Rightarrow> setter \<Rightarrow> 'n jsval list \<Rightarrow> 'n state \<Rightarrow> 'n error + nat \<times> 'n state" where
  "unshift a st items s =
     (let (o', es) = Array_unshift (elements (heap s) a) items;
          s1 = s\<lparr>heap := write_elements (heap s) a es\<rparr>
      in case array_call a st [V_ref a] s1 of
           Inl e \<Rightarrow> Inl e
         | Inr (r, s2) \<Rightarrow> Inr (o', s2))"

definition pop :: "addr \<Rightarrow> setter \<Rightarrow> 'n state \<Rightarrow> 'n error + 'n jsval \<times> 'n state" where
  "pop a st s =
     (let (o', es) = Array_pop (elements (heap s) a);
          s1 = s\<lparr>heap := write_elements (heap s) a es\<rparr>
      in case array_call a st [V_ref a] s1 of
           Inl e \<Rightarrow> Inl e
         | Inr (r, s2) \<Rightarrow> Inr (o', s2))"

definition shift :: "addr \<Rightarrow> setter \<Rightarrow> 'n state \<Rightarrow> 'n error + 'n jsval \<times> 'n state" where
  "shift a st s =
     (let (o', es) = Array_shift (elements (heap s) a);
          s1 = s\<lparr>heap := write_elements (heap s) a es\<rparr>
      in case array_call a st [V_ref a] s1 of
           Inl e \<Rightarrow> Inl e
         | Inr (r, s2) \<Rightarrow> Inr (o', s2))"

section \<open>The data extractor\<close>

text \<open>
  The extracted data: a value taken from a scalar field, or a new array or object made by
  the extractor.
\<close>

datatype 'n data =
    D_val "'n jsval"
  | D_arr "'n data list"
  | D_obj "(string \<times> 'n data) list"

text \<open>\<^verbatim>\<open>null == val\<close>\<close>

definition is_nullish :: "'n jsval \<Rightarrow> bool" where
  "is_nullish v = (v = V_null \<or> v = V_undefined)"

definition getNumberFieldData :: "'n js \<Rightarrow> 'n scalar \<Rightarrow> 'n error + 'n data" where
  "getNumberFieldData env f =
     (let val = value f
      in if isNumberString env val then Inr (D_val (V_num (plus_of env val)))
         else if required f then Inl (Required (path f) val)
         else Inr (D_val V_null))"

definition getStringFieldData :: "'n scalar \<Rightarrow> 'n error + 'n data" where
  "getStringFieldData f =
     (let val = value f
      in if is_nullish val \<and> required f then Inl (Required (path f) val)
         else Inr (D_val val))"

definition getBooleanFieldData :: "'n scalar \<Rightarrow> 'n error + 'n data" where
  "getBooleanFieldData f =
     (let val = value f
      in if is_nullish val \<and> required f then Inl (Required (path f) val)
         else Inr (D_val val))"

definition getFileFieldData :: "'n js \<Rightarrow> 'n heap \<Rightarrow> 'n scalar \<Rightarrow> 'n error + 'n data" where
  "getFileFieldData env h f =
     (let val = value f
      in if isFile env h val then Inr (D_val val)
         else if required f then Inl (Required (path f) val)
         else Inr (D_val V_null))"

definition getDateFieldData :: "'n js \<Rightarrow> 'n heap \<Rightarrow> 'n scalar \<Rightarrow> 'n error + 'n data" where
  "getDateFieldData env h f =
     (let val = value f
      in if isDate env h val then Inr (D_val val)
         else if required f then Inl (Required (path f) val)
         else Inr (D_val V_null))"

text \<open>
  \<open>mapFields\<close> is the \<^verbatim>\<open>field.map(getFieldData)\<close> of \<^verbatim>\<open>getArrayFieldData\<close> and
  \<open>getEntries\<close> the \<^verbatim>\<open>for (const key in field)\<close> of \<^verbatim>\<open>getObjectFieldData\<close>; an exception
  leaves the loop at once.
\<close>

function getFieldData :: "'n js \<Rightarrow> 'n heap \<Rightarrow> 'n field \<Rightarrow> 'n error + 'n data"
and getArrayFieldData :: "'n js \<Rightarrow> 'n heap \<Rightarrow> 'n field list \<Rightarrow> 'n error + 'n data"
and mapFields :: "'n js \<Rightarrow> 'n heap \<Rightarrow> 'n field list \<Rightarrow> 'n error + 'n data list"
and getObjectFieldData ::
    "'n js \<Rightarrow> 'n heap \<Rightarrow> (string \<times> 'n field) list \<Rightarrow> 'n error + 'n data"
and getEntries ::
    "'n js \<Rightarrow> 'n heap \<Rightarrow> (string \<times> 'n field) list \<Rightarrow> 'n error + (string \<times> 'n data) list"
where
  "getFieldData env h (Scalar f) =
     (case type f of
        T_number \<Rightarrow> getNumberFieldData env f
      | T_string \<Rightarrow> getStringFieldData f
      | T_boolean \<Rightarrow> getBooleanFieldData f
      | T_date \<Rightarrow> getDateFieldData env h f
      | T_file \<Rightarrow> getFileFieldData env h f)"
| "getFieldData env h (ArrayField p a fs st) = getArrayFieldData env h fs"
| "getFieldData env h (ObjectField kfs) = getObjectFieldData env h kfs"
| "getFieldData env h (NotAField t) = Inl (UnexpectedField t)"
| "getArrayFieldData env h fs =
     (case mapFields env h fs of Inl e \<Rightarrow> Inl e | Inr ds \<Rightarrow> Inr (D_arr ds))"
| "mapFields env h [] = Inr []"
| "mapFields env h (f # fs) =
     (case getFieldData env h f of
        Inl e \<Rightarrow> Inl e
      | Inr d \<Rightarrow> (case mapFields env h fs of Inl e \<Rightarrow> Inl e | Inr ds \<Rightarrow> Inr (d # ds)))"
| "getObjectFieldData env h kfs =
     (case getEntries env h kfs of Inl e \<Rightarrow> Inl e | Inr kds \<Rightarrow> Inr (D_obj kds))"
| "getEntries env h [] = Inr []"
| "getEntries env h ((k, f) # kfs) =
     (case getFieldData env h f of
        Inl e \<Rightarrow> Inl e
      | Inr d \<Rightarrow>
          (case getEntries env h kfs of Inl e \<Rightarrow> Inl e | Inr kds \<Rightarrow> Inr ((k, d) # kds)))"
  by pat_completeness auto

termination getFieldData
  by (relation "measures [
    (\<lambda>x. case x of
       Inl (Inl (env, h, f)) \<Rightarrow> size f
     | Inl (Inr (env, h, fs)) \<Rightarrow> size (ArrayField [] 0 fs SetData)
     | Inr (Inl (env, h, fs)) \<Rightarrow> size (ArrayField [] 0 fs SetData)
     | Inr (Inr (Inl (env, h, kfs))) \<Rightarrow> size (ObjectField kfs)
     | Inr (Inr (Inr (env, h, kfs))) \<Rightarrow> size (ObjectField kfs)),
    (\<lambda>x. case x of
       Inl (Inl (env, h, f)) \<Rightarrow> 2
     | Inl (Inr (env, h, fs)) \<Rightarrow> 1
     | Inr (Inl (env, h, fs)) \<Rightarrow> 0
     | Inr (Inr (Inl (env, h, kfs))) \<Rightarrow> 1
     | Inr (Inr (Inr (env, h, kfs))) \<Rightarrow> 0)]") auto

definition getFormData ::
  "'n js \<Rightarrow> 'n heap \<Rightarrow> (string \<times> 'n field) list \<Rightarrow> 'n error + 'n data" where
  "getFormData env h fields' = getObjectFieldData env h fields'"

subsection \<open>The text of an error\<close>

fun join :: "string list \<Rightarrow> string \<Rightarrow> string" where
  "join [] sep = []"
| "join [x] sep = x"
| "join (x # y # ys) sep = x @ sep @ join (y # ys) sep"

text \<open>
  \<^verbatim>\<open>JSON.stringify(val)\<close> inside a template: the texts of \<^verbatim>\<open>null\<close>, of \<^verbatim>\<open>undefined\<close> and
  of the booleans; the quoting of strings and the rendering of numbers and objects are
  the runtime's.
\<close>

definition JSON_stringify :: "'n js \<Rightarrow> 'n heap \<Rightarrow> 'n jsval \<Rightarrow> string" where
  "JSON_stringify env h v =
     (case v of
        V_null \<Rightarrow> ''null''
      | V_undefined \<Rightarrow> ''undefined''
      | V_bool b \<Rightarrow> (if b then ''true'' else ''false'')
      | _ \<Rightarrow> json_other env h v)"

definition error_message :: "'n js \<Rightarrow> 'n heap \<Rightarrow> 'n error \<Rightarrow> string" where
  "error_message env h e =
     (case e of
        UnexpectedFieldType s \<Rightarrow> ''unexpected field type '' @ s
      | UnexpectedField t \<Rightarrow> ''unexpected field '' @ t
      | Required p val \<Rightarrow>
          ''field '' @ join (map key_name p) ''.'' @ '' is required; got ''
            @ JSON_stringify env h val
      | ArrayLengthWrite \<Rightarrow> ''Invalid array length'')"

section \<open>Notions used in the properties\<close>

text \<open>
  A scheme is well formed when it is built from the ten tags, arrays of one element
  scheme and objects of well-formed schemes.
\<close>

definition tags :: "string list" where
  "tags = [''string'', ''string?'', ''number'', ''number?'', ''boolean'', ''boolean?'',
           ''date'', ''date?'', ''file'', ''file?'']"


text \<open>
  A write \<^verbatim>\<open>v[key] = x\<close> is outside the model only when it assigns to the length of an
  array; \<open>setter_ok\<close> says that no closure of a setter chain does so in the given heap.
\<close>

definition writable :: "'n cell \<Rightarrow> key \<Rightarrow> bool" where
  "writable c k =
     (case kind c of
        K_array es \<Rightarrow> key_index k \<noteq> None \<or> key_name k \<noteq> ''length''
      | _ \<Rightarrow> True)"

fun setter_ok :: "'n heap \<Rightarrow> setter \<Rightarrow> bool" where
  "setter_ok h SetData = True"
| "setter_ok h (SetKey a k st) = (writable (cell_at h a) (P_key k) \<and> setter_ok h st)"
| "setter_ok h (SetIndex a i st) = (writable (cell_at h a) (P_index i) \<and> setter_ok h st)"

text \<open>The objects a setter chain assigns a key of.\<close>

fun keyed_objects :: "setter \<Rightarrow> addr list" where
  "keyed_objects SetData = []"
| "keyed_objects (SetKey a k st) = a # keyed_objects st"
| "keyed_objects (SetIndex a i st) = keyed_objects st"

text \<open>The setter a callable field was created with.\<close>

fun setter_of :: "'n field \<Rightarrow> setter option" where
  "setter_of (Scalar f) = Some (setValue f)"
| "setter_of (ArrayField p a fs st) = Some st"
| "setter_of (ObjectField kfs) = None"
| "setter_of (NotAField t) = None"

text \<open>
  The object \<^verbatim>\<open>v\<close> of \<^verbatim>\<open>createObjectField\<close>: the raw value itself when it is object-typed,
  the next free address otherwise.
\<close>

definition object_of :: "'n heap \<Rightarrow> 'n jsval \<Rightarrow> addr" where
  "object_of h v = (case v of V_ref a \<Rightarrow> a | _ \<Rightarrow> length h)"

subsection \<open>Well-typed backing values and deep equality\<close>

text \<open>
  A backing value is well typed and fully populated for a scheme when every leaf holds
  a value of the leaf's type (null also for a tag with a question mark), every array
  value is an array of such values and every object value is an ordinary object with
  exactly the keys of the scheme. A number leaf holds a numeric string, or a number
  that \<^verbatim>\<open>isNumber\<close> accepts and that the runtime prints to a numeric string which parses
  back to it. The builder keeps a number as its printed text and the extractor parses
  that text, so the last condition is what the runtime has to provide for a number to
  come back unchanged; it is a condition on the value, stated here and not proved of
  any runtime.
\<close>

definition number_ok :: "'n js \<Rightarrow> 'n jsval \<Rightarrow> bool" where
  "number_ok env v =
     (case v of
        V_num n \<Rightarrow> is_number env n \<and> is_number_string env (number_to_string env n)
                   \<and> to_number env (number_to_string env n) = n
      | V_str s \<Rightarrow> is_number_string env s
      | _ \<Rightarrow> False)"

definition typeof_boolean :: "'n jsval \<Rightarrow> bool" where
  "typeof_boolean v = (case v of V_bool b \<Rightarrow> True | _ \<Rightarrow> False)"

fun matches :: "'n js \<Rightarrow> 'n heap \<Rightarrow> scheme \<Rightarrow> 'n jsval \<Rightarrow> bool" where
  "matches env h (S_str tag) v =
     (if tag = ''string'' then isString v
      else if tag = ''string?'' then isString v \<or> v = V_null
      else if tag = ''number'' then number_ok env v
      else if tag = ''number?'' then number_ok env v \<or> v = V_null
      else if tag = ''boolean'' then typeof_boolean v
      else if tag = ''boolean?'' then typeof_boolean v \<or> v = V_null
      else if tag = ''date'' then isDate env h v
      else if tag = ''date?'' then isDate env h v \<or> v = V_null
      else if tag = ''file'' then isFile env h v
      else if tag = ''file?'' then isFile env h v \<or> v = V_null
      else False)"
| "matches env h (S_arr ts) v =
     (length ts = 1 \<and> isArray h v
      \<and> (\<forall>t \<in> set ts. \<forall>x \<in> set (elements h (object_of h v)). matches env h t x))"
| "matches env h (S_obj kts) v =
     (isObject v \<and> kind (cell_at h (object_of h v)) = K_plain
      \<and> distinct (map fst kts)
      \<and> set (map fst (props (cell_at h (object_of h v)))) = set (map fst kts)
      \<and> (\<forall>kt \<in> set kts.
            matches env h (snd kt) (lookup (props (cell_at h (object_of h v))) (fst kt))))"
| "matches env h (S_other s) v = False"

text \<open>
  Deep equality of extracted data and a backing value, read along the scheme. At a leaf
  the data is the backing value itself; the one exception is a leaf of a number tag
  whose backing value is a numeric string, where the data is the number the string
  denotes and nothing else. An array is equal to an array of the same length with equal
  elements, an object to an ordinary object with the same keys and equal members.
\<close>

fun deep_equal :: "'n js \<Rightarrow> 'n heap \<Rightarrow> scheme \<Rightarrow> 'n data \<Rightarrow> 'n jsval \<Rightarrow> bool" where
  "deep_equal env h (S_str tag) d v =
     (if tag = ''number'' \<or> tag = ''number?'' then
        (case v of
           V_str s \<Rightarrow> is_number_string env s \<and> d = D_val (V_num (to_number env s))
         | _ \<Rightarrow> d = D_val v)
      else d = D_val v)"
| "deep_equal env h (S_arr ts) (D_arr ds) v =
     (isArray h v
      \<and> (\<forall>t \<in> set ts. list_all2 (deep_equal env h t) ds (elements h (object_of h v))))"
| "deep_equal env h (S_obj kts) (D_obj kds) v =
     (isObject v \<and> kind (cell_at h (object_of h v)) = K_plain
      \<and> distinct (map fst kds)
      \<and> set (map fst kds) = set (map fst (props (cell_at h (object_of h v))))
      \<and> set (map fst kds) = set (map fst kts)
      \<and> (\<forall>kt \<in> set kts.
            case map_of kds (fst kt) of
              None \<Rightarrow> False
            | Some d' \<Rightarrow>
                deep_equal env h (snd kt) d'
                  (lookup (props (cell_at h (object_of h v))) (fst kt))))"
| "deep_equal env h sch d v = False"

subsection \<open>An instance of the runtime for the examples\<close>

text \<open>
  Numbers are integers, with \<open>None\<close> for \<^verbatim>\<open>NaN\<close>. A numeric string is a non-empty string of
  decimal digits, read in base ten; the only calendar string that parses is
  \<^verbatim>\<open>1970-01-01T00:00:00.000Z\<close>; strings are quoted without escapes; the text of a date
  is given for the invalid date only. The instance agrees with the runtime on the values
  the examples use.
\<close>

definition demo_js :: "int option js" where
  "demo_js =
     \<lparr> is_number = (\<lambda>n. n \<noteq> None),
       is_number_string = (\<lambda>s. s \<noteq> [] \<and> list_all is_digit s),
       is_valid_time = (\<lambda>t. t \<noteq> None),
       number_to_string =
         (\<lambda>n. case n of
                None \<Rightarrow> ''NaN''
              | Some i \<Rightarrow> if i < 0 then ''-'' @ decimal (nat (- i)) else decimal (nat i)),
       to_number =
         (\<lambda>s. if list_all is_digit s then Some (int (decimal_value s)) else None),
       time_clip = (\<lambda>n. n),
       date_parse = (\<lambda>s. if s = ''1970-01-01T00:00:00.000Z'' then Some 0 else None),
       date_to_string = (\<lambda>t. case t of None \<Rightarrow> ''Invalid Date'' | Some i \<Rightarrow> []),
       number_of_nat = (\<lambda>n. Some (int n)),
       json_other = (\<lambda>h v. case v of V_str s \<Rightarrow> [CHR 0x22] @ s @ [CHR 0x22] | _ \<Rightarrow> []) \<rparr>"

subsection \<open>Example forms\<close>

text \<open>A login form over the caller's object \<^verbatim>\<open>{email: 'a@b.c'}\<close>, and its email field.\<close>

definition login_heap :: "int option heap" where
  "login_heap = [Cell K_plain [(''email'', V_str ''a@b.c'')]]"

definition email_field :: "int option scalar" where
  "email_field = \<lparr>type = T_string, path = [P_key ''email''], required = True,
                  value = V_str ''a@b.c'', setValue = SetKey 0 ''email'' SetData\<rparr>"

text \<open>
  A form with a list of tags over the caller's object \<^verbatim>\<open>{tags: ['a', 'b', 'c']}\<close>: the
  object is cell 0 and its array cell 1.
\<close>

definition tags_heap :: "int option heap" where
  "tags_heap = [Cell K_plain [(''tags'', V_ref 1)],
                Cell (K_array [V_str ''a'', V_str ''b'', V_str ''c'']) []]"

text \<open>An address form over the caller's object \<^verbatim>\<open>{street: 'Main St'}\<close>, and its street field.\<close>

definition address_heap :: "int option heap" where
  "address_heap = [Cell K_plain [(''street'', V_str ''Main St'')]]"

definition street_field :: "int option scalar" where
  "street_field = \<lparr>type = T_string, path = [P_key ''street''], required = True,
                   value = V_str ''Main St'', setValue = SetKey 0 ''street'' SetData\<rparr>"

text \<open>
  A person form over
  \<^verbatim>\<open>{name: 'Ann', age: 30, zip: '02134', year: '1999', tags: ['a', 'b']}\<close>, where \<^verbatim>\<open>zip\<close>
  is a string field and \<^verbatim>\<open>year\<close> a number field given as a string: its heap, scheme,
  field tree and extracted data.
\<close>

definition person_heap :: "int option heap" where
  "person_heap =
     [Cell K_plain [(''name'', V_str ''Ann''), (''age'', V_num (Some 30)),
                    (''zip'', V_str ''02134''), (''year'', V_str ''1999''),
                    (''tags'', V_ref 1)],
      Cell (K_array [V_str ''a'', V_str ''b'']) []]"

definition person_scheme :: "(string \<times> scheme) list" where
  "person_scheme =
     [(''name'', S_str ''string''), (''age'', S_str ''number''), (''zip'', S_str ''string''),
      (''year'', S_str ''number''), (''tags'', S_arr [S_str ''string''])]"

definition person_fields :: "(string \<times> int option field) list" where
  "person_fields =
     [(''name'', Scalar \<lparr>type = T_string, path = [P_key ''name''], required = True,
                          value = V_str ''Ann'', setValue = SetKey 0 ''name'' SetData\<rparr>),
      (''age'', Scalar \<lparr>type = T_number, path = [P_key ''age''], required = True,
                         value = V_str ''30'', setValue = SetKey 0 ''age'' SetData\<rparr>),
      (''zip'', Scalar \<lparr>type = T_string, path = [P_key ''zip''], required = True,
                         value = V_str ''02134'', setValue = SetKey 0 ''zip'' SetData\<rparr>),
      (''year'', Scalar \<lparr>type = T_number, path = [P_key ''year''], required = True,
                          value = V_str ''1999'', setValue = SetKey 0 ''year'' SetData\<rparr>),
      (''tags'',
       ArrayField [P_key ''tags''] 1
         [Scalar \<lparr>type = T_string, path = [P_key ''tags'', P_index 0], required = True,
                  value = V_str ''a'', setValue = SetIndex 1 0 (SetKey 0 ''tags'' SetData)\<rparr>,
          Scalar \<lparr>type = T_string, path = [P_key ''tags'', P_index 1], required = True,
                  value = V_str ''b'', setValue = SetIndex 1 1 (SetKey 0 ''tags'' SetData)\<rparr>]
         (SetKey 0 ''tags'' SetData))]"

definition person_data :: "int option data" where
  "person_data =
     D_obj [(''name'', D_val (V_str ''Ann'')), (''age'', D_val (V_num (Some 30))),
            (''zip'', D_val (V_str ''02134'')), (''year'', D_val (V_num (Some 1999))),
            (''tags'', D_arr [D_val (V_str ''a''), D_val (V_str ''b'')])]"

text \<open>The same data with the zip code turned into a number, and with the year left a string.\<close>

definition person_data_zip_number :: "int option data" where
  "person_data_zip_number =
     D_obj [(''name'', D_val (V_str ''Ann'')), (''age'', D_val (V_num (Some 30))),
            (''zip'', D_val (V_num (Some 2134))), (''year'', D_val (V_num (Some 1999))),
            (''tags'', D_arr [D_val (V_str ''a''), D_val (V_str ''b'')])]"

definition person_data_year_string :: "int option data" where
  "person_data_year_string =
     D_obj [(''name'', D_val (V_str ''Ann'')), (''age'', D_val (V_num (Some 30))),
            (''zip'', D_val (V_str ''02134'')), (''year'', D_val (V_str ''1999'')),
            (''tags'', D_arr [D_val (V_str ''a''), D_val (V_str ''b'')])]"

section \<open>Properties\<close>

subsection \<open>The builder on each tag\<close>

lemma createField_string:
  "createField env (S_str ''string'') p v st h =
     Inr (createScalarField T_string p True
           (if isString v \<or> isNumber env v \<or> isDate env h v
            then V_str (String_of env h v) else V_null) st, h)"
  "createField env (S_str ''string?'') p v st h =
     Inr (createScalarField T_string p False
           (if isString v \<or> isNumber env v \<or> isDate env h v
            then V_str (String_of env h v) else V_null) st, h)"
  by simp_all

lemma createField_number:
  "createField env (S_str ''number'') p v st h =
     Inr (createScalarField T_number p True
           (if isNumber env v then V_str (toString_of env v)
            else if isString v then v else V_null) st, h)"
  "createField env (S_str ''number?'') p v st h =
     Inr (createScalarField T_number p False
           (if isNumber env v then V_str (toString_of env v)
            else if isString v then v else V_null) st, h)"
  by simp_all

lemma createField_boolean:
  "createField env (S_str ''boolean'') p v st h =
     Inr (createScalarField T_boolean p True (boolean_of h v) st, h)"
  "createField env (S_str ''boolean?'') p v st h =
     Inr (createScalarField T_boolean p False (boolean_of h v) st, h)"
  by simp_all

lemma createField_date:
  "createField env (S_str ''date'') p v st h =
     Inr (createScalarField T_date p True (fst (date env v h)) st, snd (date env v h))"
  "createField env (S_str ''date?'') p v st h =
     Inr (createScalarField T_date p False (fst (date env v h)) st, snd (date env v h))"
  by (simp_all add: case_prod_beta)

lemma createField_file:
  "createField env (S_str ''file'') p v st h =
     Inr (createScalarField T_file p True (if isFile env h v then v else V_null) st, h)"
  "createField env (S_str ''file?'') p v st h =
     Inr (createScalarField T_file p False (if isFile env h v then v else V_null) st, h)"
  by simp_all

lemma createField_other_tag:
  "tag \<notin> set tags \<Longrightarrow> createField env (S_str tag) p v st h = Inl (UnexpectedFieldType tag)"
  by (simp add: tags_def)

lemmas createField_tag = createField_string createField_number createField_boolean
  createField_date createField_file

declare createField.simps(1) [simp del]

subsection \<open>Writes through a setter chain\<close>

lemma set_prop_None: "set_prop c k x = None \<longleftrightarrow> \<not> writable c k"
  by (auto simp: set_prop_def writable_def split: kind.splits option.splits)

lemma writable_set_prop:
  "set_prop c k x = Some c' \<Longrightarrow> writable c' k' = writable c k'"
  by (auto simp: set_prop_def writable_def split: kind.splits option.splits if_splits)

lemma cell_at_update:
  "cell_at (h[a := c]) b = (if b = a \<and> a < length h then c else cell_at h b)"
  by (simp add: cell_at_def)

lemma setter_ok_update:
  "set_prop (cell_at h a) k x = Some c \<Longrightarrow> setter_ok (h[a := c]) st = setter_ok h st"
  by (induction st) (auto simp: cell_at_update writable_set_prop)

lemma writable_obtain:
  assumes "writable c k"
  obtains c' where "set_prop c k x = Some c'"
  using assms set_prop_None [of c k x] by (cases "set_prop c k x") auto

lemma apply_setter_ok:
  "setter_ok (heap s) st \<Longrightarrow>
     \<exists>s'. apply_setter st x s = Inr s' \<and> length (calls s') = Suc (length (calls s))
          \<and> length (heap s') = length (heap s)"
proof (induction st arbitrary: x s)
  case SetData
  then show ?case by simp
next
  case (SetKey a k st)
  from SetKey.prems have w: "writable (cell_at (heap s) a) (P_key k)"
    and ok: "setter_ok (heap s) st" by simp_all
  from w obtain c where c: "set_prop (cell_at (heap s) a) (P_key k) x = Some c"
    by (rule writable_obtain)
  let ?s = "s\<lparr>heap := (heap s)[a := c]\<rparr>"
  from ok c have "setter_ok (heap ?s) st" by (simp add: setter_ok_update)
  from SetKey.IH [OF this, of "V_ref a"] c show ?case by auto
next
  case (SetIndex a i st)
  from SetIndex.prems have w: "writable (cell_at (heap s) a) (P_index i)"
    and ok: "setter_ok (heap s) st" by simp_all
  from w obtain c where c: "set_prop (cell_at (heap s) a) (P_index i) x = Some c"
    by (rule writable_obtain)
  let ?s = "s\<lparr>heap := (heap s)[a := c]\<rparr>"
  from ok c have "setter_ok (heap ?s) st" by (simp add: setter_ok_update)
  from SetIndex.IH [OF this, of "V_ref a"] c show ?case by auto
qed

text \<open>Every closure of a chain calls the next one once, so the caller's callback is
  reached exactly once.\<close>

lemma apply_setter_calls:
  "apply_setter st x s = Inr s' \<Longrightarrow> length (calls s') = Suc (length (calls s))"
  by (induction st arbitrary: x s) (auto split: option.splits)

lemma decimal_last: "decimal n \<noteq> [] \<and> last (decimal n) = digit_char (n mod 10)"
proof (induction n rule: decimal.induct)
  case (1 n)
  show ?case by (subst decimal.simps, subst (2) decimal.simps) simp
qed

lemma digit_char_not_h: "d < 10 \<Longrightarrow> digit_char d \<noteq> CHR ''h''"
proof -
  assume "d < 10"
  then have "d \<in> {0, 1, 2, 3, 4, 5, 6, 7, 8, 9}" by auto
  then show ?thesis by (auto simp: digit_char_def)
qed

lemma decimal_not_length: "decimal n \<noteq> ''length''"
proof
  assume "decimal n = ''length''"
  then have "last (decimal n) = CHR ''h''" by simp
  with decimal_last [of n] have "digit_char (n mod 10) = CHR ''h''" by simp
  moreover have "n mod 10 < 10" by simp
  ultimately show False using digit_char_not_h by blast
qed

text \<open>Assigning an element of an array never fails, and neither does assigning a key of
  an object that is not an array.\<close>

lemma writable_index: "writable c (P_index i)"
  by (simp add: writable_def decimal_not_length split: kind.splits)

lemma writable_not_array: "\<forall>es. kind c \<noteq> K_array es \<Longrightarrow> writable c k"
  by (auto simp: writable_def split: kind.splits)

lemma setter_ok_ordinary:
  "\<forall>a \<in> set (keyed_objects st). \<forall>es. kind (cell_at h a) \<noteq> K_array es \<Longrightarrow> setter_ok h st"
  by (induction st) (simp_all add: writable_index writable_not_array)

subsection \<open>Extraction stops at the first failure\<close>





subsection \<open>The builder never fails on a well-formed scheme\<close>



lemma tags_cases:
  "tag \<in> set tags \<longleftrightarrow>
     tag = ''string'' \<or> tag = ''string?'' \<or> tag = ''number'' \<or> tag = ''number?''
     \<or> tag = ''boolean'' \<or> tag = ''boolean?'' \<or> tag = ''date'' \<or> tag = ''date?''
     \<or> tag = ''file'' \<or> tag = ''file?''"
  by (simp only: tags_def list.set insert_iff empty_iff simp_thms)




lemma date_nullish:
  "date env V_undefined h = (V_null, h)" "date env V_null h = (V_null, h)"
  by (simp_all add: date_def isDate_def isNumber_def isNumberString_def isString_def)




subsection \<open>Array fields and dates\<close>

lemma createArrayField_shape:
  assumes "createArrayField env ts p v st h = Inr (ArrayField p' a fs st', h')"
  shows "st' = st \<and> p' = p \<and> (if isArray h v then v = V_ref a else a = length h)"
  using assms
  by (auto simp: Let_def alloc_def isArray_def split: list.splits sum.splits jsval.splits if_splits prod.splits kind.splits)

lemma write_elements_same:
  "kind (cell_at h a) = K_array es \<Longrightarrow> write_elements h a es = h"
  by (cases "a < length h") (auto simp: write_elements_def cell_at_def list_update_same_conv cell.expand)

lemma isDate_fresh:
  "isDate env (h @ [Cell (K_date t) []]) (V_ref (length h)) = is_valid_time env t"
  by (simp add: isDate_def cell_at_def)

subsection \<open>The setters and the heap of a built tree\<close>

lemma createArrayField_is_array:
  assumes "createArrayField env ts p v st h = Inr (f, h')"
  shows "\<exists>a fs. f = ArrayField p a fs st"
  using assms
  by (auto simp: Let_def split: list.splits sum.splits if_splits prod.splits)

lemma createObjectField_is_object:
  assumes "createObjectField env kts p v st h = Inr (f, h')"
  shows "\<exists>o'. f = ObjectField o'"
  using assms
  by (auto simp: Let_def split: sum.splits prod.splits)

lemma createField_tag_setter:
  assumes "createField env (S_str tag) p v st h = Inr (f, h')"
  shows "setter_of f = Some st"
proof (cases "tag \<in> set tags")
  case True
  then show ?thesis
    using assms unfolding tags_cases
    by (elim disjE) (auto simp: createField_tag createScalarField_def)
next
  case False
  with assms show ?thesis by (simp add: createField_other_tag)
qed

lemma createField_setter:
  assumes "createField env sch p v st h = Inr (f, h')" and "setter_of f = Some st'"
  shows "st' = st"
proof (cases sch)
  case (S_str tag)
  with assms show ?thesis using createField_tag_setter [of env tag p v st h f h'] by simp
next
  case (S_arr ts)
  with assms(1) have "createArrayField env ts p v st h = Inr (f, h')" by simp
  from createArrayField_is_array [OF this] assms(2) show ?thesis by auto
next
  case (S_obj kts)
  with assms(1) have "createObjectField env kts p v st h = Inr (f, h')" by simp
  from createObjectField_is_object [OF this] assms(2) show ?thesis by auto
next
  case (S_other s)
  with assms show ?thesis by simp
qed

lemma createEntries_setter:
  assumes "createEntries env kts p a st h = Inr (o', h')"
      and "(k, f) \<in> set o'" and "setter_of f = Some st'"
  shows "st' = SetKey a k st"
  using assms
proof (induction kts arbitrary: h o')
  case Nil
  then show ?case by simp
next
  case (Cons kt kts)
  obtain k0 t where kt: "kt = (k0, t)" by (cases kt)
  from Cons.prems(1) kt obtain f0 h1 fs where
    1: "createField env t (p @ [P_key k0]) (get_prop env (cell_at h a) (P_key k0)) (SetKey a k0 st) h
          = Inr (f0, h1)"
    and 2: "createEntries env kts p a st h1 = Inr (fs, h')"
    and o': "o' = (k0, f0) # fs"
    by (auto split: sum.splits)
  from Cons.prems(2) o' consider "k = k0 \<and> f = f0" | "(k, f) \<in> set fs" by auto
  then show ?case
  proof cases
    case 1
    with createField_setter [OF \<open>createField env t _ _ _ h = Inr (f0, h1)\<close>] Cons.prems(3)
    show ?thesis by simp
  next
    case 2
    from Cons.IH [OF \<open>createEntries env kts p a st h1 = Inr (fs, h')\<close> 2 Cons.prems(3)]
    show ?thesis .
  qed
qed

text \<open>The builder only allocates: the cells of the heap it starts from stay as they are.\<close>

lemma date_extends: "\<exists>ext. snd (date env v h) = h @ ext"
  by (simp add: date_def new_Date_def alloc_def Let_def)

lemma createField_tag_extends:
  assumes "createField env (S_str tag) p v st h = Inr (f, h')"
  shows "\<exists>ext. h' = h @ ext"
proof (cases "tag \<in> set tags")
  case True
  then show ?thesis
    using assms date_extends [of env v h] unfolding tags_cases
    by (elim disjE) (auto simp: createField_tag)
next
  case False
  with assms show ?thesis by (simp add: createField_other_tag)
qed

lemma createElements_extends:
  assumes "\<And>p v st h f h'. createField env t p v st h = Inr (f, h') \<Longrightarrow> \<exists>ext. h' = h @ ext"
      and "createElements env t p a st i xs h = Inr (fs, h')"
  shows "\<exists>ext. h' = h @ ext"
  using assms(2)
proof (induction xs arbitrary: i h fs)
  case Nil
  then show ?case by simp
next
  case (Cons x xs)
  from Cons.prems obtain f h1 fs' where
    1: "createField env t (p @ [P_index i]) x (SetIndex a i st) h = Inr (f, h1)"
    and 2: "createElements env t p a st (Suc i) xs h1 = Inr (fs', h')"
    by (auto split: sum.splits)
  from assms(1) [OF 1] obtain e1 where "h1 = h @ e1" by blast
  moreover from Cons.IH [OF 2] obtain e2 where "h' = h1 @ e2" by blast
  ultimately show ?case by simp
qed

lemma createEntries_extends:
  assumes "\<And>kt p v st h f h'. kt \<in> set kts \<Longrightarrow>
             createField env (snd kt) p v st h = Inr (f, h') \<Longrightarrow> \<exists>ext. h' = h @ ext"
      and "createEntries env kts p a st h = Inr (fs, h')"
  shows "\<exists>ext. h' = h @ ext"
  using assms
proof (induction kts arbitrary: h fs)
  case Nil
  then show ?case by simp
next
  case (Cons kt kts)
  obtain k t where kt: "kt = (k, t)" by (cases kt)
  from Cons.prems(2) kt obtain f h1 fs' where
    1: "createField env t (p @ [P_key k]) (get_prop env (cell_at h a) (P_key k)) (SetKey a k st) h
          = Inr (f, h1)"
    and 2: "createEntries env kts p a st h1 = Inr (fs', h')"
    by (auto split: sum.splits)
  from Cons.prems(1) [of kt] 1 kt obtain e1 where "h1 = h @ e1" by fastforce
  moreover have "\<exists>ext. h' = h1 @ ext"
    by (rule Cons.IH [OF _ 2]) (rule Cons.prems(1), simp_all)
  ultimately show ?case by auto
qed

lemma createField_extends:
  "createField env sch p v st h = Inr (f, h') \<Longrightarrow> \<exists>ext. h' = h @ ext"
proof (induction sch arbitrary: p v st h f h')
  case (S_str tag)
  then show ?case by (rule createField_tag_extends)
next
  case (S_arr ts)
  show ?case
  proof (cases ts)
    case Nil
    with S_arr.prems show ?thesis
      by (auto simp: Let_def alloc_def split: jsval.splits if_splits prod.splits)
  next
    case (Cons t ts')
    obtain a h1 where ah: "(case v of
                       V_ref a \<Rightarrow> if isArray h v then (a, h) else alloc (Cell (K_array []) []) h
                     | _ \<Rightarrow> alloc (Cell (K_array []) []) h) = (a, h1)"
      by (cases "(case v of
                       V_ref a \<Rightarrow> if isArray h v then (a, h) else alloc (Cell (K_array []) []) h
                     | _ \<Rightarrow> alloc (Cell (K_array []) []) h)")
    then have h1: "\<exists>e. h1 = h @ e"
      by (auto simp: alloc_def split: jsval.splits if_splits)
    from S_arr.prems Cons ah obtain fs where
      el: "createElements env t p a st 0 (case kind (cell_at h1 a) of K_array es \<Rightarrow> es | _ \<Rightarrow> []) h1
             = Inr (fs, h')"
      by (auto simp: Let_def split: sum.splits)
    have "\<exists>ext. h' = h1 @ ext"
      by (rule createElements_extends [OF _ el]) (rule S_arr.IH [of t], simp_all add: Cons)
    with h1 show ?thesis by auto
  qed
next
  case (S_obj kts)
  obtain a h1 where ah: "(case v of V_ref a \<Rightarrow> (a, h) | _ \<Rightarrow> alloc (Cell K_plain []) h) = (a, h1)"
    by (cases "(case v of V_ref a \<Rightarrow> (a, h) | _ \<Rightarrow> alloc (Cell K_plain []) h)")
  then have h1: "\<exists>e. h1 = h @ e"
    by (auto simp: alloc_def split: jsval.splits)
  from S_obj.prems ah obtain fs where
    en: "createEntries env kts p a st h1 = Inr (fs, h')"
    by (auto simp: Let_def split: sum.splits)
  have "\<exists>ext. h' = h1 @ ext"
  proof (rule createEntries_extends [OF _ en])
    fix kt p v st h f h'
    assume m: "kt \<in> set kts" and c: "createField env (snd kt) p v st h = Inr (f, h')"
    have "snd kt \<in> Basic_BNFs.snds kt" by (cases kt) simp
    from S_obj.IH [OF m this c] show "\<exists>ext. h' = h @ ext" .
  qed
  with h1 show ?case by auto
next
  case (S_other s)
  then show ?case by simp
qed

lemma set_prop_not_array:
  assumes "\<forall>es. kind c \<noteq> K_array es"
  shows "set_prop c (P_key k) x = Some (Cell (kind c) (AList.update k x (props c)))"
  using assms by (cases "kind c") (auto simp: set_prop_def)

lemma get_prop_not_array:
  assumes "\<forall>es. kind c \<noteq> K_array es"
  shows "get_prop env c (P_key k) = lookup (props c) k"
  using assms by (cases "kind c") (auto simp: get_prop_def)

subsection \<open>Extraction after building\<close>

lemma date_of_date: "isDate env h v \<Longrightarrow> date env v h = (v, h)"
  by (simp add: date_def)

lemma roundtrip_tag:
  assumes "matches env h (S_str tag) v"
  shows "\<exists>f d. createField env (S_str tag) p v st h = Inr (f, h)
               \<and> getFieldData env h f = Inr d \<and> deep_equal env h (S_str tag) d v"
proof -
  from assms have "tag \<in> set tags"
    by (simp add: tags_def split: if_splits)
  then show ?thesis
    using assms unfolding tags_cases
  proof (elim disjE)
    assume "tag = ''string''" and "matches env h (S_str tag) v"
    then show ?thesis
      by (cases v)
         (simp_all add: createField_tag createScalarField_def getStringFieldData_def
            isString_def String_of_def is_nullish_def)
  next
    assume "tag = ''string?''" and "matches env h (S_str tag) v"
    then show ?thesis
      by (cases v)
         (simp_all add: createField_tag createScalarField_def getStringFieldData_def
            isString_def isNumber_def isDate_def String_of_def is_nullish_def)
  next
    assume "tag = ''number''" and "matches env h (S_str tag) v"
    then show ?thesis
      by (cases v)
         (simp_all add: createField_tag createScalarField_def getNumberFieldData_def
            number_ok_def isString_def isNumber_def isNumberString_def toString_of_def
            plus_of_def)
  next
    assume "tag = ''number?''" and "matches env h (S_str tag) v"
    then show ?thesis
      by (cases v)
         (simp_all add: createField_tag createScalarField_def getNumberFieldData_def
            number_ok_def isString_def isNumber_def isNumberString_def toString_of_def
            plus_of_def)
  next
    assume "tag = ''boolean''" and "matches env h (S_str tag) v"
    then show ?thesis
      by (cases v)
         (simp_all add: createField_tag createScalarField_def getBooleanFieldData_def
            typeof_boolean_def boolean_of_def is_nullish_def)
  next
    assume "tag = ''boolean?''" and "matches env h (S_str tag) v"
    then show ?thesis
      by (cases v)
         (simp_all add: createField_tag createScalarField_def getBooleanFieldData_def
            typeof_boolean_def boolean_of_def is_nullish_def)
  next
    assume t: "tag = ''date''" and "matches env h (S_str tag) v"
    then have "isDate env h v" by simp
    with t show ?thesis
      by (simp add: createField_tag createScalarField_def getDateFieldData_def date_of_date)
  next
    assume t: "tag = ''date?''" and "matches env h (S_str tag) v"
    then consider "isDate env h v" | "v = V_null" "\<not> isDate env h v" by auto
    then show ?thesis
    proof cases
      case 1
      with t show ?thesis
        by (simp add: createField_tag createScalarField_def getDateFieldData_def date_of_date)
    next
      case 2
      with t show ?thesis
        by (simp add: createField_tag createScalarField_def getDateFieldData_def date_nullish)
    qed
  next
    assume t: "tag = ''file''" and "matches env h (S_str tag) v"
    then have "isFile env h v" by simp
    with t show ?thesis
      by (simp add: createField_tag createScalarField_def getFileFieldData_def)
  next
    assume t: "tag = ''file?''" and "matches env h (S_str tag) v"
    then consider "isFile env h v" | "v = V_null" "\<not> isFile env h v" by auto
    then show ?thesis
    proof cases
      case 1
      with t show ?thesis
        by (simp add: createField_tag createScalarField_def getFileFieldData_def)
    next
      case 2
      with t show ?thesis
        by (simp add: createField_tag createScalarField_def getFileFieldData_def)
    qed
  qed
qed

lemma roundtrip_elements:
  assumes ih: "\<And>p v st. matches env h t v \<Longrightarrow>
                 \<exists>f d. createField env t p v st h = Inr (f, h)
                      \<and> getFieldData env h f = Inr d \<and> deep_equal env h t d v"
      and "\<forall>x \<in> set xs. matches env h t x"
  shows "\<exists>fs ds. createElements env t p a st i xs h = Inr (fs, h)
                \<and> mapFields env h fs = Inr ds \<and> list_all2 (deep_equal env h t) ds xs"
  using assms(2)
proof (induction xs arbitrary: i)
  case Nil
  show ?case by simp
next
  case (Cons x xs)
  from Cons.prems have "matches env h t x" by simp
  from ih [OF this, of "p @ [P_index i]" "SetIndex a i st"] obtain f d where
    1: "createField env t (p @ [P_index i]) x (SetIndex a i st) h = Inr (f, h)"
    and 2: "getFieldData env h f = Inr d" and 3: "deep_equal env h t d x" by blast
  from Cons.prems have "\<forall>x \<in> set xs. matches env h t x" by simp
  from Cons.IH [OF this, of "Suc i"] obtain fs ds where
    4: "createElements env t p a st (Suc i) xs h = Inr (fs, h)"
    and 5: "mapFields env h fs = Inr ds" and 6: "list_all2 (deep_equal env h t) ds xs" by blast
  from 1 2 3 4 5 6 show ?case by simp
qed

lemma roundtrip_entries:
  assumes ih: "\<And>kt p v st. kt \<in> set kts \<Longrightarrow> matches env h (snd kt) v \<Longrightarrow>
                 \<exists>f d. createField env (snd kt) p v st h = Inr (f, h)
                      \<and> getFieldData env h f = Inr d \<and> deep_equal env h (snd kt) d v"
      and m: "\<forall>kt \<in> set kts. matches env h (snd kt) (lookup (props (cell_at h a)) (fst kt))"
      and dist: "distinct (map fst kts)"
      and plain: "kind (cell_at h a) = K_plain"
  shows "\<exists>o' kds. createEntries env kts p a st h = Inr (o', h)
                \<and> getEntries env h o' = Inr kds \<and> map fst kds = map fst kts
                \<and> (\<forall>kt \<in> set kts.
                      \<exists>d'. map_of kds (fst kt) = Some d'
                          \<and> deep_equal env h (snd kt) d' (lookup (props (cell_at h a)) (fst kt)))"
  using ih m dist
proof (induction kts)
  case Nil
  show ?case by simp
next
  case (Cons kt kts)
  obtain k t where kt: "kt = (k, t)" by (cases kt)
  from plain have gp: "get_prop env (cell_at h a) (P_key k) = lookup (props (cell_at h a)) k"
    by (simp add: get_prop_def)
  from Cons.prems(2) kt have "matches env h t (lookup (props (cell_at h a)) k)" by simp
  from Cons.prems(1) [of kt "lookup (props (cell_at h a)) k" "p @ [P_key k]" "SetKey a k st"] this kt
  obtain f d where
    1: "createField env t (p @ [P_key k]) (lookup (props (cell_at h a)) k) (SetKey a k st) h = Inr (f, h)"
    and 2: "getFieldData env h f = Inr d"
    and 3: "deep_equal env h t d (lookup (props (cell_at h a)) k)" by auto
  have "\<exists>o' kds. createEntries env kts p a st h = Inr (o', h)
                \<and> getEntries env h o' = Inr kds \<and> map fst kds = map fst kts
                \<and> (\<forall>kt \<in> set kts.
                      \<exists>d'. map_of kds (fst kt) = Some d'
                          \<and> deep_equal env h (snd kt) d' (lookup (props (cell_at h a)) (fst kt)))"
  proof (rule Cons.IH)
    fix kt' p v st assume "kt' \<in> set kts" "matches env h (snd kt') v"
    then show "\<exists>f d. createField env (snd kt') p v st h = Inr (f, h)
                      \<and> getFieldData env h f = Inr d \<and> deep_equal env h (snd kt') d v"
      using Cons.prems(1) [of kt' v p st] by simp
  next
    from Cons.prems(2)
    show "\<forall>kt \<in> set kts. matches env h (snd kt) (lookup (props (cell_at h a)) (fst kt))"
      by simp
  next
    from Cons.prems(3) show "distinct (map fst kts)" by simp
  qed
  then obtain o' kds where
    4: "createEntries env kts p a st h = Inr (o', h)"
    and 5: "getEntries env h o' = Inr kds" and 6: "map fst kds = map fst kts"
    and 7: "\<forall>kt \<in> set kts.
              \<exists>d'. map_of kds (fst kt) = Some d'
                  \<and> deep_equal env h (snd kt) d' (lookup (props (cell_at h a)) (fst kt))"
    by blast
  from Cons.prems(3) kt have fresh: "\<forall>kt' \<in> set kts. fst kt' \<noteq> k" by auto
  have 8: "\<forall>kt' \<in> set (kt # kts).
              \<exists>d'. map_of ((k, d) # kds) (fst kt') = Some d'
                  \<and> deep_equal env h (snd kt') d' (lookup (props (cell_at h a)) (fst kt'))"
    using 3 7 fresh kt by auto
  from 1 2 4 5 6 kt gp have
    "createEntries env (kt # kts) p a st h = Inr ((k, f) # o', h)"
    "getEntries env h ((k, f) # o') = Inr ((k, d) # kds)"
    "map fst ((k, d) # kds) = map fst (kt # kts)"
    by simp_all
  with 8 show ?case by blast
qed

lemma roundtrip_field:
  "matches env h sch v \<Longrightarrow>
     \<exists>f d. createField env sch p v st h = Inr (f, h)
          \<and> getFieldData env h f = Inr d \<and> deep_equal env h sch d v"
proof (induction sch arbitrary: p v st)
  case (S_str tag)
  then show ?case by (rule roundtrip_tag)
next
  case (S_arr ts)
  from S_arr.prems obtain t where ts: "ts = [t]" by (cases ts) auto
  from S_arr.prems obtain a where v: "v = V_ref a" by (cases v) (auto simp: isArray_def)
  from S_arr.prems v have arr: "isArray h (V_ref a)" by simp
  then obtain es where es: "kind (cell_at h a) = K_array es"
    by (auto simp: isArray_def split: kind.splits)
  from S_arr.prems ts v es have all: "\<forall>x \<in> set es. matches env h t x"
    by (simp add: elements_def object_of_def)
  have "\<exists>fs ds. createElements env t p a st 0 es h = Inr (fs, h)
                \<and> mapFields env h fs = Inr ds \<and> list_all2 (deep_equal env h t) ds es"
    by (rule roundtrip_elements [OF _ all]) (rule S_arr.IH [of t], simp_all add: ts)
  then obtain fs ds where
    1: "createElements env t p a st 0 es h = Inr (fs, h)"
    and 2: "mapFields env h fs = Inr ds" and 3: "list_all2 (deep_equal env h t) ds es" by blast
  from 1 2 3 ts v arr es show ?case
    by (simp add: Let_def elements_def object_of_def)
next
  case (S_obj kts)
  from S_obj.prems obtain a where v: "v = V_ref a" by (cases v) (auto simp: isObject_def)
  from S_obj.prems v have plain: "kind (cell_at h a) = K_plain"
    and dist: "distinct (map fst kts)"
    and keys: "set (map fst (props (cell_at h a))) = set (map fst kts)"
    and m: "\<forall>kt \<in> set kts. matches env h (snd kt) (lookup (props (cell_at h a)) (fst kt))"
    by (simp_all add: object_of_def)
  have "\<exists>o' kds. createEntries env kts p a st h = Inr (o', h)
                \<and> getEntries env h o' = Inr kds \<and> map fst kds = map fst kts
                \<and> (\<forall>kt \<in> set kts.
                      \<exists>d'. map_of kds (fst kt) = Some d'
                          \<and> deep_equal env h (snd kt) d' (lookup (props (cell_at h a)) (fst kt)))"
  proof (rule roundtrip_entries [OF _ m dist plain])
    fix kt p v st assume k: "kt \<in> set kts" and mm: "matches env h (snd kt) v"
    have "snd kt \<in> Basic_BNFs.snds kt" by (cases kt) simp
    from S_obj.IH [OF k this mm]
    show "\<exists>f d. createField env (snd kt) p v st h = Inr (f, h)
                      \<and> getFieldData env h f = Inr d \<and> deep_equal env h (snd kt) d v" .
  qed
  then obtain o' kds where
    1: "createEntries env kts p a st h = Inr (o', h)"
    and 2: "getEntries env h o' = Inr kds" and 3: "map fst kds = map fst kts"
    and 4: "\<forall>kt \<in> set kts.
              \<exists>d'. map_of kds (fst kt) = Some d'
                  \<and> deep_equal env h (snd kt) d' (lookup (props (cell_at h a)) (fst kt))"
    by blast
  from 3 dist have d: "distinct (map fst kds)" by simp
  from 3 keys have k: "set (map fst kds) = set (map fst (props (cell_at h a)))" by simp
  from 3 have k2: "set (map fst kds) = set (map fst kts)" by simp
  from 4 have 5: "\<forall>kt \<in> set kts.
            case map_of kds (fst kt) of
              None \<Rightarrow> False
            | Some d' \<Rightarrow> deep_equal env h (snd kt) d' (lookup (props (cell_at h a)) (fst kt))"
    by fastforce
  have de: "deep_equal env h (S_obj kts) (D_obj kds) (V_ref a)"
    using d k k2 5 plain by (simp add: object_of_def isObject_def cong: option.case_cong)
  from 1 2 v have "createField env (S_obj kts) p v st h = Inr (ObjectField o', h)"
    "getFieldData env h (ObjectField o') = Inr (D_obj kds)"
    by (simp_all add: Let_def)
  with de v show ?case by blast
next
  case (S_other s)
  then show ?case by simp
qed

subsection \<open>Unfolding for concrete inputs\<close>





lemmas eval_defs = createForm_def createScalarField_def cell_at_def get_prop_def set_prop_def
  lookup_def isString_def isNumber_def isDate_def String_of_def alloc_def

text \<open>
  The example of the array helpers: over the tags \<^verbatim>\<open>['a', 'b']\<close>, \<^verbatim>\<open>push('c')\<close> returns 3,
  leaves \<^verbatim>\<open>['a', 'b', 'c']\<close> in the backing array and calls the setter.
\<close>

lemma push_example:
  "push 1 (SetKey 0 ''tags'' SetData) [V_str ''c'']
     \<lparr>heap = [Cell K_plain [(''tags'', V_ref 1)], Cell (K_array [V_str ''a'', V_str ''b'']) []],
      calls = []\<rparr>
   = Inr (3, \<lparr>heap = [Cell K_plain [(''tags'', V_ref 1)],
                       Cell (K_array [V_str ''a'', V_str ''b'', V_str ''c'']) []],
              calls = [V_ref 0 :: int option jsval]\<rparr>)"
  by (simp add: push_def Array_push_def elements_def write_elements_def array_call_def eval_defs)

text \<open>
  Deep equality is exact outside the number fields, and asks for the number inside them:
  for the person form, data whose zip code has become the number 2134 is not equal to
  the backing value, and neither is data whose year is still the string.
\<close>

lemma deep_equal_is_exact:
  "\<not> deep_equal demo_js person_heap (S_obj person_scheme) person_data_zip_number (V_ref 0)
   \<and> \<not> deep_equal demo_js person_heap (S_obj person_scheme) person_data_year_string (V_ref 0)"
  by (simp add: person_heap_def person_scheme_def person_data_zip_number_def
        person_data_year_string_def isObject_def object_of_def cell_at_def lookup_def
        demo_js_def is_digit_def decimal_value_def)

section \<open>The claims\<close>

text \<open>
  C1, as amended. Calling a scalar field with one argument \<open>x\<close> returns \<open>x\<close> and invokes
  the field's setter exactly once with \<open>x\<close> (the state after the call is the state after
  one application of the setter, and the caller's callback has been reached once); the
  call succeeds whenever no closure of the chain assigns to the length of an array. A
  zero-argument call on the same field afterwards returns the value the field was
  created with: the field does not store the new value.
\<close>

theorem scalar_call_snapshot:
  "scalar_call f [x] s =
     (case apply_setter (setValue f) x s of Inl e \<Rightarrow> Inl e | Inr s' \<Rightarrow> Inr (x, s'))
   \<and> (\<forall>s' r. scalar_call f [x] s = Inr (r, s') \<longrightarrow>
         r = x \<and> apply_setter (setValue f) x s = Inr s'
         \<and> length (calls s') = Suc (length (calls s))
         \<and> scalar_call f [] s' = Inr (value f, s'))
   \<and> (setter_ok (heap s) (setValue f) \<longrightarrow> (\<exists>s'. scalar_call f [x] s = Inr (x, s')))"
proof (intro conjI allI impI)
  show "scalar_call f [x] s =
          (case apply_setter (setValue f) x s of Inl e \<Rightarrow> Inl e | Inr s' \<Rightarrow> Inr (x, s'))"
    by (simp add: scalar_call_def split: sum.splits)
next
  fix s' r assume a: "scalar_call f [x] s = Inr (r, s')"
  then show "r = x" by (auto simp: scalar_call_def split: sum.splits)
  from a show ap: "apply_setter (setValue f) x s = Inr s'"
    by (auto simp: scalar_call_def split: sum.splits)
  then show "length (calls s') = Suc (length (calls s))" by (rule apply_setter_calls)
  show "scalar_call f [] s' = Inr (value f, s')" by (simp add: scalar_call_def)
next
  assume "setter_ok (heap s) (setValue f)"
  from apply_setter_ok [OF this, of x] show "\<exists>s'. scalar_call f [x] s = Inr (x, s')"
    by (auto simp: scalar_call_def)
qed

theorem scalar_call_snapshot_witness:
  "setter_ok login_heap (SetKey 0 ''email'' SetData)
   \<and> scalar_call email_field [V_str ''x@y.z''] \<lparr>heap = login_heap, calls = []\<rparr>
     = Inr (V_str ''x@y.z'',
            \<lparr>heap = [Cell K_plain [(''email'', V_str ''x@y.z'')]], calls = [V_ref 0]\<rparr>)
   \<and> scalar_call email_field []
        \<lparr>heap = [Cell K_plain [(''email'', V_str ''x@y.z'')]], calls = [V_ref 0]\<rparr>
     = Inr (value email_field,
            \<lparr>heap = [Cell K_plain [(''email'', V_str ''x@y.z'')]], calls = [V_ref 0]\<rparr>)"
proof -
  let ?s0 = "\<lparr>heap = login_heap, calls = []\<rparr>"
  let ?s1 = "\<lparr>heap = [Cell K_plain [(''email'', V_str ''x@y.z'')]], calls = [V_ref 0]\<rparr> :: int option state"
  have ok: "setter_ok login_heap (SetKey 0 ''email'' SetData)"
    by (simp add: cell_at_def login_heap_def writable_def)
  have c: "scalar_call email_field [V_str ''x@y.z''] ?s0 = Inr (V_str ''x@y.z'', ?s1)"
    by (simp add: eval_defs login_heap_def email_field_def scalar_call_def)
  from scalar_call_snapshot [of email_field "V_str ''x@y.z''" ?s0] c
  have "scalar_call email_field [] ?s1 = Inr (value email_field, ?s1)" by blast
  with ok c show ?thesis by simp
qed

text \<open>
  C1 as stated fails: after the email field of the login form is called with a new
  address, a zero-argument call on the same field still returns the old one.
\<close>

theorem scalar_read_after_write_counterexample:
  "createForm demo_js [(''email'', S_str ''string'')] (V_ref 0) login_heap
     = Inr (ObjectField [(''email'', Scalar email_field)], login_heap)
   \<and> scalar_call email_field [V_str ''x@y.z''] \<lparr>heap = login_heap, calls = []\<rparr>
     = Inr (V_str ''x@y.z'',
            \<lparr>heap = [Cell K_plain [(''email'', V_str ''x@y.z'')]], calls = [V_ref 0]\<rparr>)
   \<and> scalar_call email_field []
        \<lparr>heap = [Cell K_plain [(''email'', V_str ''x@y.z'')]], calls = [V_ref 0]\<rparr>
     = Inr (V_str ''a@b.c'',
            \<lparr>heap = [Cell K_plain [(''email'', V_str ''x@y.z'')]], calls = [V_ref 0]\<rparr>)
   \<and> V_str ''a@b.c'' \<noteq> (V_str ''x@y.z'' :: int option jsval)"
  by (simp add: eval_defs login_heap_def email_field_def createField_string scalar_call_def)

text \<open>
  C2. For a backing value that is well typed and fully populated for a scheme, the
  builder returns a field tree without changing the heap, extraction of that tree
  succeeds, and the extracted data is deep-equal to the backing value along the scheme:
  every leaf is the backing value itself, except that a number field given as a numeric
  string appears as the number the string denotes. The same holds for \<open>createForm\<close>
  followed by \<open>getFormData\<close>.
\<close>

theorem extract_build_roundtrip:
  assumes "matches env h sch v"
  shows "(\<exists>f d. createField env sch p v st h = Inr (f, h)
               \<and> getFieldData env h f = Inr d \<and> deep_equal env h sch d v)
       \<and> (\<forall>kts. sch = S_obj kts \<longrightarrow>
             (\<exists>o' d. createForm env kts v h = Inr (ObjectField o', h)
                    \<and> getFormData env h o' = Inr d \<and> deep_equal env h sch d v))"
proof
  show "\<exists>f d. createField env sch p v st h = Inr (f, h)
               \<and> getFieldData env h f = Inr d \<and> deep_equal env h sch d v"
    using assms by (rule roundtrip_field)
next
  show "\<forall>kts. sch = S_obj kts \<longrightarrow>
             (\<exists>o' d. createForm env kts v h = Inr (ObjectField o', h)
                    \<and> getFormData env h o' = Inr d \<and> deep_equal env h sch d v)"
  proof (intro allI impI)
    fix kts assume sch: "sch = S_obj kts"
    from roundtrip_field [OF assms, of "[]" SetData] sch obtain f d where
      1: "createObjectField env kts [] v SetData h = Inr (f, h)"
      and 2: "getFieldData env h f = Inr d" and 3: "deep_equal env h sch d v" by auto
    from createObjectField_is_object [OF 1] obtain o' where f: "f = ObjectField o'" by blast
    with 1 2 3 show "\<exists>o' d. createForm env kts v h = Inr (ObjectField o', h)
                    \<and> getFormData env h o' = Inr d \<and> deep_equal env h sch d v"
      by (auto simp: createForm_def getFormData_def)
  qed
qed

theorem extract_build_roundtrip_witness:
  "matches demo_js person_heap (S_obj person_scheme) (V_ref 0)
   \<and> createForm demo_js person_scheme (V_ref 0) person_heap
       = Inr (ObjectField person_fields, person_heap)
   \<and> getFormData demo_js person_heap person_fields = Inr person_data
   \<and> deep_equal demo_js person_heap (S_obj person_scheme) person_data (V_ref 0)"
proof -
  have m: "matches demo_js person_heap (S_obj person_scheme) (V_ref 0)"
    by (simp add: person_heap_def person_scheme_def isObject_def object_of_def cell_at_def
          lookup_def isString_def number_ok_def isArray_def elements_def demo_js_def
          decimal.simps digit_char_def is_digit_def decimal_value_def)
  have b: "createForm demo_js person_scheme (V_ref 0) person_heap
             = Inr (ObjectField person_fields, person_heap)"
    by (simp add: eval_defs person_heap_def person_scheme_def person_fields_def
          createField_string createField_number isArray_def toString_of_def demo_js_def
          decimal.simps digit_char_def)
  have g: "getFormData demo_js person_heap person_fields = Inr person_data"
    by (simp add: getFormData_def person_fields_def person_data_def getStringFieldData_def
          getNumberFieldData_def is_nullish_def isNumberString_def plus_of_def demo_js_def
          is_digit_def decimal_value_def)
  from extract_build_roundtrip [OF m, of "[]" SetData] person_scheme_def
  obtain o' d where "createForm demo_js person_scheme (V_ref 0) person_heap
                       = Inr (ObjectField o', person_heap)"
    and "getFormData demo_js person_heap o' = Inr d"
    and "deep_equal demo_js person_heap (S_obj person_scheme) d (V_ref 0)" by blast
  with b g have de: "deep_equal demo_js person_heap (S_obj person_scheme) person_data (V_ref 0)"
    by simp
  show ?thesis by (rule conjI [OF m conjI [OF b conjI [OF g de]]])
qed

text \<open>
  C3. Extraction of a field of type number reads the stored buffer. A well-formed numeric
  string gives the parsed number; any other buffer gives a validation error with the
  field's path and the raw buffer when the field is required, and null when it is not.
  The text of the error names the path, joined by dots, and the raw value. The fields of
  type number are those built from the tags number and number?; the first is required,
  the second is not, and the buffer is the raw number printed or the raw string.
\<close>

theorem number_field_extraction:
  "(type f = T_number \<longrightarrow>
      getFieldData env h (Scalar f) =
        (case value f of
           V_str s \<Rightarrow>
             if is_number_string env s then Inr (D_val (V_num (to_number env s)))
             else if required f then Inl (Required (path f) (value f))
             else Inr (D_val V_null)
         | _ \<Rightarrow>
             if required f then Inl (Required (path f) (value f))
             else Inr (D_val V_null))
      \<and> error_message env h (Required (path f) (value f)) =
          ''field '' @ join (map key_name (path f)) ''.'' @ '' is required; got ''
            @ JSON_stringify env h (value f))
   \<and> ((tag = ''number'' \<or> tag = ''number?'')
        \<and> createField env (S_str tag) p v st h0 = Inr (Scalar g, h1) \<longrightarrow>
          type g = T_number \<and> required g = (tag = ''number'') \<and> path g = p
          \<and> value g = (if isNumber env v then V_str (toString_of env v)
                        else if isString v then v else V_null))"
proof (intro conjI impI)
  assume "type f = T_number"
  then show "getFieldData env h (Scalar f) =
        (case value f of
           V_str s \<Rightarrow>
             if is_number_string env s then Inr (D_val (V_num (to_number env s)))
             else if required f then Inl (Required (path f) (value f))
             else Inr (D_val V_null)
         | _ \<Rightarrow>
             if required f then Inl (Required (path f) (value f))
             else Inr (D_val V_null))"
    by (simp add: getNumberFieldData_def isNumberString_def plus_of_def split: jsval.splits)
next
  show "error_message env h (Required (path f) (value f)) =
          ''field '' @ join (map key_name (path f)) ''.'' @ '' is required; got ''
            @ JSON_stringify env h (value f)"
    by (simp add: error_message_def)
next
  assume a: "(tag = ''number'' \<or> tag = ''number?'')
        \<and> createField env (S_str tag) p v st h0 = Inr (Scalar g, h1)"
  then have g: "g = \<lparr>type = T_number, path = p, required = (tag = ''number''),
                     value = (if isNumber env v then V_str (toString_of env v)
                              else if isString v then v else V_null),
                     setValue = st\<rparr>"
    by (auto simp: createField_number createScalarField_def)
  show "type g = T_number" by (simp add: g)
  show "required g = (tag = ''number'')" by (simp add: g)
  show "path g = p" by (simp add: g)
  show "value g = (if isNumber env v then V_str (toString_of env v)
                        else if isString v then v else V_null)" by (simp add: g)
qed

theorem number_field_extraction_witness:
  "createField demo_js (S_str ''number'') [P_key ''age''] (V_str ''42'') SetData []
     = Inr (Scalar \<lparr>type = T_number, path = [P_key ''age''], required = True,
                    value = V_str ''42'', setValue = SetData\<rparr>, [])
   \<and> getFieldData demo_js []
        (Scalar \<lparr>type = T_number, path = [P_key ''age''], required = True,
                 value = V_str ''42'', setValue = SetData\<rparr>)
     = Inr (D_val (V_num (Some 42)))
   \<and> getFieldData demo_js []
        (Scalar \<lparr>type = T_number, path = [P_key ''age''], required = True,
                 value = V_str ''x'', setValue = SetData\<rparr>)
     = Inl (Required [P_key ''age''] (V_str ''x''))"
proof -
  let ?f = "\<lparr>type = T_number, path = [P_key ''age''], required = True,
             value = V_str ''42'', setValue = SetData\<rparr> :: int option scalar"
  let ?g = "\<lparr>type = T_number, path = [P_key ''age''], required = True,
             value = V_str ''x'', setValue = SetData\<rparr> :: int option scalar"
  have b: "createField demo_js (S_str ''number'') [P_key ''age''] (V_str ''42'') SetData []
             = Inr (Scalar ?f, [])"
    by (simp add: createField_number createScalarField_def isNumber_def isString_def)
  have tf: "type ?f = T_number" and tg: "type ?g = T_number" by simp_all
  from number_field_extraction [of ?f demo_js "[]"] tf
  have 1: "getFieldData demo_js [] (Scalar ?f) = Inr (D_val (V_num (Some 42)))"
    by (simp add: demo_js_def is_digit_def decimal_value_def)
  from number_field_extraction [of ?g demo_js "[]"] tg
  have 2: "getFieldData demo_js [] (Scalar ?g) = Inl (Required [P_key ''age''] (V_str ''x''))"
    by (simp add: demo_js_def is_digit_def)
  show ?thesis by (rule conjI [OF b conjI [OF 1 2]])
qed





text \<open>
  C6, as amended. The object field writes into the raw value itself when that is
  object-typed: the setter of every sub-field assigns the sub-field's key in the object
  at the raw value's own address, then invokes the object's setter with that object; no
  copy is made. When the raw value is not object-typed the object is a new empty one,
  allocated when the tree is built. On an object that is not an array the assignment
  stores the value under the key and leaves the other keys alone.
\<close>

theorem object_subfield_write:
  assumes "createObjectField (env :: 'n js) kts p v st h = Inr (ObjectField o', h')"
      and "(k, f) \<in> set o'"
      and "setter_of f = Some st'"
  shows "st' = SetKey (object_of h v) k st
       \<and> (isObject v \<longrightarrow> v = V_ref (object_of h v))
       \<and> (\<not> isObject v \<longrightarrow> object_of h v = length h \<and> cell_at h' (length h) = Cell K_plain [])
       \<and> (\<forall>x s. apply_setter st' x s =
             (case set_prop (cell_at (heap s) (object_of h v)) (P_key k) x of
                None \<Rightarrow> Inl ArrayLengthWrite
              | Some c \<Rightarrow>
                  apply_setter st (V_ref (object_of h v))
                    (s\<lparr>heap := (heap s)[object_of h v := c]\<rparr>)))
       \<and> (\<forall>x c. (\<forall>es. kind c \<noteq> K_array es) \<longrightarrow>
             (\<exists>c'. set_prop c (P_key k) x = Some c' \<and> kind c' = kind c
                  \<and> get_prop env c' (P_key k) = x
                  \<and> (\<forall>k'. k' \<noteq> k \<longrightarrow> get_prop env c' (P_key k') = get_prop env c (P_key k'))))"
proof -
  let ?a = "object_of h v"
  let ?h1 = "if isObject v then h else h @ [Cell K_plain []]"
  have ah: "(case v of V_ref a \<Rightarrow> (a, h) | _ \<Rightarrow> alloc (Cell K_plain []) h) = (?a, ?h1)"
    by (cases v) (simp_all add: object_of_def isObject_def alloc_def)
  with assms(1) have en: "createEntries env kts p ?a st ?h1 = Inr (o', h')"
    by (auto simp: Let_def split: sum.splits)
  from createEntries_setter [OF en assms(2,3)] have st': "st' = SetKey ?a k st" .
  have obj: "isObject v \<longrightarrow> v = V_ref ?a"
    by (cases v) (simp_all add: object_of_def isObject_def)
  have fresh: "\<not> isObject v \<longrightarrow> ?a = length h \<and> cell_at h' (length h) = Cell K_plain []"
  proof
    assume n: "\<not> isObject v"
    then have a: "?a = length h" by (cases v) (simp_all add: object_of_def isObject_def)
    have "\<exists>ext. h' = ?h1 @ ext"
    proof -
      have "createField env (S_obj kts) p (V_ref ?a) st ?h1 = Inr (ObjectField o', h')"
        using en by (simp add: Let_def)
      then show ?thesis by (rule createField_extends)
    qed
    with n obtain ext where "h' = (h @ [Cell K_plain []]) @ ext" by auto
    then have "cell_at h' (length h) = Cell K_plain []"
      by (simp add: cell_at_def nth_append)
    with a show "?a = length h \<and> cell_at h' (length h) = Cell K_plain []" by simp
  qed
  have ap: "\<forall>x s. apply_setter st' x s =
             (case set_prop (cell_at (heap s) ?a) (P_key k) x of
                None \<Rightarrow> Inl ArrayLengthWrite
              | Some c \<Rightarrow> apply_setter st (V_ref ?a) (s\<lparr>heap := (heap s)[?a := c]\<rparr>))"
    by (simp add: st')
  have wr: "\<forall>x c. (\<forall>es. kind c \<noteq> K_array es) \<longrightarrow>
             (\<exists>c'. set_prop c (P_key k) x = Some c' \<and> kind c' = kind c
                  \<and> get_prop env c' (P_key k) = x
                  \<and> (\<forall>k'. k' \<noteq> k \<longrightarrow> get_prop env c' (P_key k') = get_prop env c (P_key k')))"
  proof (intro allI impI)
    fix x :: "'n jsval" and c :: "'n cell"
    assume na: "\<forall>es. kind c \<noteq> K_array es"
    let ?c = "Cell (kind c) (AList.update k x (props c))"
    from na have 1: "set_prop c (P_key k) x = Some ?c" by (simp add: set_prop_not_array)
    from na have 2: "\<forall>es. kind ?c \<noteq> K_array es" by simp
    have 3: "get_prop env ?c (P_key k) = x"
      by (simp add: get_prop_not_array [OF 2] lookup_def update_conv')
    have 4: "\<forall>k'. k' \<noteq> k \<longrightarrow> get_prop env ?c (P_key k') = get_prop env c (P_key k')"
      by (simp add: get_prop_not_array [OF 2] get_prop_not_array [OF na] lookup_def update_conv')
    from 1 3 4 show "\<exists>c'. set_prop c (P_key k) x = Some c' \<and> kind c' = kind c
                  \<and> get_prop env c' (P_key k) = x
                  \<and> (\<forall>k'. k' \<noteq> k \<longrightarrow> get_prop env c' (P_key k') = get_prop env c (P_key k'))"
      by auto
  qed
  from st' obj fresh ap wr show ?thesis by blast
qed

theorem object_subfield_write_witness:
  "createObjectField demo_js [(''street'', S_str ''string'')] [] (V_ref 0) SetData address_heap
     = Inr (ObjectField [(''street'', Scalar street_field)], address_heap)
   \<and> (''street'', Scalar street_field) \<in> set [(''street'', Scalar street_field)]
   \<and> setter_of (Scalar street_field) = Some (SetKey 0 ''street'' SetData)
   \<and> SetKey 0 ''street'' SetData = SetKey (object_of address_heap (V_ref 0)) ''street'' SetData
   \<and> apply_setter (SetKey 0 ''street'' SetData) (V_str ''Elm St'')
        \<lparr>heap = address_heap, calls = []\<rparr>
     = Inr \<lparr>heap = [Cell K_plain [(''street'', V_str ''Elm St'')]], calls = [V_ref 0]\<rparr>"
proof -
  have b: "createObjectField demo_js [(''street'', S_str ''string'')] [] (V_ref 0) SetData address_heap
     = Inr (ObjectField [(''street'', Scalar street_field)], address_heap)"
    by (simp add: eval_defs address_heap_def street_field_def createField_string)
  have m: "(''street'', Scalar street_field) \<in> set [(''street'', Scalar street_field)]" by simp
  have s: "setter_of (Scalar street_field) = Some (SetKey 0 ''street'' SetData)"
    by (simp add: street_field_def)
  from object_subfield_write [OF b m s]
  have 1: "SetKey 0 ''street'' SetData = SetKey (object_of address_heap (V_ref 0)) ''street'' SetData"
    by blast
  have 2: "apply_setter (SetKey 0 ''street'' SetData) (V_str ''Elm St'')
        \<lparr>heap = address_heap, calls = []\<rparr>
     = Inr \<lparr>heap = [Cell K_plain [(''street'', V_str ''Elm St'')]], calls = [V_ref 0]\<rparr>"
    by (simp add: eval_defs address_heap_def)
  show ?thesis by (rule conjI [OF b conjI [OF m conjI [OF s conjI [OF 1 2]]]])
qed

text \<open>
  C6 as stated fails: after the street field of the address form is called, the caller's
  original object (cell 0) holds the new street, and the callback receives that object.
\<close>

theorem object_write_mutates_original_counterexample:
  "createForm demo_js [(''street'', S_str ''string'')] (V_ref 0) address_heap
     = Inr (ObjectField [(''street'', Scalar street_field)], address_heap)
   \<and> scalar_call street_field [V_str ''Elm St''] \<lparr>heap = address_heap, calls = []\<rparr>
     = Inr (V_str ''Elm St'',
            \<lparr>heap = [Cell K_plain [(''street'', V_str ''Elm St'')]], calls = [V_ref 0]\<rparr>)
   \<and> cell_at [Cell K_plain [(''street'', V_str ''Elm St'')]] 0 \<noteq> cell_at address_heap 0"
  by (simp add: eval_defs address_heap_def street_field_def createField_string scalar_call_def)

text \<open>
  C7, at the input where the code departs from it. The form has the tags
  \<^verbatim>\<open>['a', 'b', 'c']\<close>. \<^verbatim>\<open>fields.tags.splice(1)\<close>, with the count omitted, returns the
  empty list and leaves the array as it was (the setter is still invoked), because the
  helper passes its default count 0 on; \<^verbatim>\<open>Array.prototype.splice\<close> called with the start
  alone removes and returns \<^verbatim>\<open>['b', 'c']\<close>.
\<close>

theorem splice_without_count_removes_nothing:
  "createForm demo_js [(''tags'', S_arr [S_str ''string''])] (V_ref 0) tags_heap
     = Inr (ObjectField
              [(''tags'',
                ArrayField [P_key ''tags''] 1
                  [Scalar \<lparr>type = T_string, path = [P_key ''tags'', P_index 0], required = True,
                           value = V_str ''a'', setValue = SetIndex 1 0 (SetKey 0 ''tags'' SetData)\<rparr>,
                   Scalar \<lparr>type = T_string, path = [P_key ''tags'', P_index 1], required = True,
                           value = V_str ''b'', setValue = SetIndex 1 1 (SetKey 0 ''tags'' SetData)\<rparr>,
                   Scalar \<lparr>type = T_string, path = [P_key ''tags'', P_index 2], required = True,
                           value = V_str ''c'', setValue = SetIndex 1 2 (SetKey 0 ''tags'' SetData)\<rparr>]
                  (SetKey 0 ''tags'' SetData))],
            tags_heap)
   \<and> splice 1 (SetKey 0 ''tags'' SetData) 1 None [] \<lparr>heap = tags_heap, calls = []\<rparr>
     = Inr ([], \<lparr>heap = tags_heap, calls = [V_ref 0]\<rparr>)
   \<and> Array_splice [V_str ''a'', V_str ''b'', V_str ''c''] 1 None []
     = ([V_str ''b'', V_str ''c''], [V_str ''a''] :: int option jsval list)"
  by (simp add: eval_defs tags_heap_def createField_string isArray_def splice_def
        Array_splice_def elements_def write_elements_def array_call_def Let_def)

text \<open>
  C8. An array field created by the builder keeps the address of its backing array: a
  one-argument call passes the argument to the setter and returns it, and succeeds
  whenever no closure of the setter chain assigns to the length of an array; a
  zero-argument call, in whatever state, returns the backing array the field was created
  over (the raw value when it was an array, a new array otherwise), not the argument of
  an earlier call.
\<close>

theorem array_call_keeps_backing:
  assumes "createField env (S_arr ts) p v st h = Inr (ArrayField p' a fs st', h')"
  shows "st' = st \<and> p' = p \<and> (if isArray h v then v = V_ref a else a = length h)
       \<and> array_call a st' [x] s =
           (case apply_setter st x s of Inl e \<Rightarrow> Inl e | Inr s' \<Rightarrow> Inr (x, s'))
       \<and> (\<forall>r s'. array_call a st' [x] s = Inr (r, s') \<longrightarrow>
             r = x \<and> apply_setter st x s = Inr s' \<and> array_call a st' [] s' = Inr (V_ref a, s'))
       \<and> (setter_ok (heap s) st \<longrightarrow> (\<exists>s'. array_call a st' [x] s = Inr (x, s')))"
proof -
  from assms have sh: "st' = st" "p' = p" "if isArray h v then v = V_ref a else a = length h"
    using createArrayField_shape [of env ts p v st h p' a fs st' h'] by simp_all
  have 1: "array_call a st [x] s =
           (case apply_setter st x s of Inl e \<Rightarrow> Inl e | Inr s' \<Rightarrow> Inr (x, s'))"
    by (simp add: array_call_def split: sum.splits)
  have 2: "\<forall>r s'. array_call a st [x] s = Inr (r, s') \<longrightarrow>
             r = x \<and> apply_setter st x s = Inr s' \<and> array_call a st [] s' = Inr (V_ref a, s')"
    by (auto simp: array_call_def split: sum.splits)
  have 3: "setter_ok (heap s) st \<longrightarrow> (\<exists>s'. array_call a st [x] s = Inr (x, s'))"
    using apply_setter_ok [of s st x] by (auto simp: array_call_def)
  from sh 1 2 3 show ?thesis by simp
qed

theorem array_call_keeps_backing_witness:
  "createField demo_js (S_arr [S_str ''string'']) [P_key ''tags''] (V_ref 1)
       (SetKey 0 ''tags'' SetData) (tags_heap @ [Cell (K_array [V_str ''z'']) []])
     = Inr (ArrayField [P_key ''tags''] 1
              [Scalar \<lparr>type = T_string, path = [P_key ''tags'', P_index 0], required = True,
                       value = V_str ''a'', setValue = SetIndex 1 0 (SetKey 0 ''tags'' SetData)\<rparr>,
               Scalar \<lparr>type = T_string, path = [P_key ''tags'', P_index 1], required = True,
                       value = V_str ''b'', setValue = SetIndex 1 1 (SetKey 0 ''tags'' SetData)\<rparr>,
               Scalar \<lparr>type = T_string, path = [P_key ''tags'', P_index 2], required = True,
                       value = V_str ''c'', setValue = SetIndex 1 2 (SetKey 0 ''tags'' SetData)\<rparr>]
              (SetKey 0 ''tags'' SetData),
            tags_heap @ [Cell (K_array [V_str ''z'']) []])
   \<and> array_call 1 (SetKey 0 ''tags'' SetData) [V_ref 2]
        \<lparr>heap = tags_heap @ [Cell (K_array [V_str ''z'']) []], calls = []\<rparr>
     = Inr (V_ref 2,
            \<lparr>heap = [Cell K_plain [(''tags'', V_ref 2)],
                     Cell (K_array [V_str ''a'', V_str ''b'', V_str ''c'']) [],
                     Cell (K_array [V_str ''z'']) []],
             calls = [V_ref 0]\<rparr>)
   \<and> array_call 1 (SetKey 0 ''tags'' SetData) []
        \<lparr>heap = [Cell K_plain [(''tags'', V_ref 2)],
                 Cell (K_array [V_str ''a'', V_str ''b'', V_str ''c'']) [],
                 Cell (K_array [V_str ''z'']) []],
         calls = [V_ref 0]\<rparr>
     = Inr (V_ref 1 :: int option jsval,
            \<lparr>heap = [Cell K_plain [(''tags'', V_ref 2)],
                     Cell (K_array [V_str ''a'', V_str ''b'', V_str ''c'']) [],
                     Cell (K_array [V_str ''z'']) []],
             calls = [V_ref 0]\<rparr>)"
proof -
  let ?h = "tags_heap @ [Cell (K_array [V_str ''z'']) []]"
  let ?st = "SetKey 0 ''tags'' SetData"
  let ?s1 = "\<lparr>heap = [Cell K_plain [(''tags'', V_ref 2)],
                     Cell (K_array [V_str ''a'', V_str ''b'', V_str ''c'']) [],
                     Cell (K_array [V_str ''z'']) []],
             calls = [V_ref 0]\<rparr> :: int option state"
  have b: "createField demo_js (S_arr [S_str ''string'']) [P_key ''tags''] (V_ref 1) ?st ?h
     = Inr (ArrayField [P_key ''tags''] 1
              [Scalar \<lparr>type = T_string, path = [P_key ''tags'', P_index 0], required = True,
                       value = V_str ''a'', setValue = SetIndex 1 0 (SetKey 0 ''tags'' SetData)\<rparr>,
               Scalar \<lparr>type = T_string, path = [P_key ''tags'', P_index 1], required = True,
                       value = V_str ''b'', setValue = SetIndex 1 1 (SetKey 0 ''tags'' SetData)\<rparr>,
               Scalar \<lparr>type = T_string, path = [P_key ''tags'', P_index 2], required = True,
                       value = V_str ''c'', setValue = SetIndex 1 2 (SetKey 0 ''tags'' SetData)\<rparr>]
              ?st, ?h)"
    by (simp add: eval_defs tags_heap_def createField_string isArray_def)
  have c: "array_call 1 ?st [V_ref 2] \<lparr>heap = ?h, calls = []\<rparr> = Inr (V_ref 2, ?s1)"
    by (simp add: eval_defs tags_heap_def array_call_def)
  from array_call_keeps_backing [OF b, of "V_ref 2" "\<lparr>heap = ?h, calls = []\<rparr>"] c
  have d: "array_call 1 ?st [] ?s1 = Inr (V_ref 1, ?s1)" by blast
  show ?thesis by (rule conjI [OF b conjI [OF c d]])
qed

text \<open>
  C9. For the tags date and date?, a raw value that is a numeric string becomes the date
  whose time value is the number the string denotes; any other string is parsed as a
  calendar date. In both cases the stored value is the new date when its time value is
  valid and null when it is not.
\<close>

theorem date_coercion:
  assumes "tag = ''date'' \<or> tag = ''date?''"
  shows "createField env (S_str tag) p (V_str s) st h =
           (let t = (if is_number_string env s then time_clip env (to_number env s)
                     else date_parse env s)
            in Inr (createScalarField T_date p (tag = ''date'')
                      (if is_valid_time env t then V_ref (length h) else V_null) st,
                    h @ [Cell (K_date t) []]))"
proof -
  have "date env (V_str s) h =
          (let t = (if is_number_string env s then time_clip env (to_number env s)
                     else date_parse env s)
           in (if is_valid_time env t then V_ref (length h) else V_null, h @ [Cell (K_date t) []]))"
  proof -
    have "\<not> isDate env h (V_str s)" by (simp add: isDate_def)
    then show ?thesis
      by (simp add: date_def isNumber_def isNumberString_def isString_def new_Date_def
            alloc_def plus_of_def chars_of_def isDate_fresh Let_def)
  qed
  with assms show ?thesis
    by (auto simp: createField_date Let_def)
qed

theorem date_coercion_witness:
  "(''date'' = ''date'' \<or> ''date'' = ''date?'')
   \<and> createField demo_js (S_str ''date'') [P_key ''born''] (V_str ''86400000'') SetData []
     = Inr (Scalar \<lparr>type = T_date, path = [P_key ''born''], required = True,
                    value = V_ref 0, setValue = SetData\<rparr>,
            [Cell (K_date (Some 86400000)) []])
   \<and> createField demo_js (S_str ''date'') [P_key ''born''] (V_str ''tomorrow'') SetData []
     = Inr (Scalar \<lparr>type = T_date, path = [P_key ''born''], required = True,
                    value = V_null, setValue = SetData\<rparr>,
            [Cell (K_date None) []])"
proof -
  have t: "''date'' = ''date'' \<or> ''date'' = ''date?''" by simp
  show ?thesis
    using date_coercion [OF t, of demo_js "[P_key ''born'']" "''86400000''" SetData "[]"]
          date_coercion [OF t, of demo_js "[P_key ''born'']" "''tomorrow''" SetData "[]"]
    by (simp add: demo_js_def is_digit_def decimal_value_def createScalarField_def)
qed

text \<open>
  C10. On an array field whose backing array is empty, pop and shift return undefined,
  leave the heap as it is and invoke the setter once with the backing array; they
  succeed whenever no closure of the setter chain assigns to the length of an array, and
  then the caller's callback has been reached exactly once.
\<close>

theorem pop_shift_empty:
  assumes "kind (cell_at (heap s) a) = K_array []"
  shows "pop a st s =
           (case apply_setter st (V_ref a) s of Inl e \<Rightarrow> Inl e | Inr s' \<Rightarrow> Inr (V_undefined, s'))
       \<and> shift a st s =
           (case apply_setter st (V_ref a) s of Inl e \<Rightarrow> Inl e | Inr s' \<Rightarrow> Inr (V_undefined, s'))
       \<and> (setter_ok (heap s) st \<longrightarrow>
            (\<exists>s'. pop a st s = Inr (V_undefined, s') \<and> shift a st s = Inr (V_undefined, s')
                 \<and> length (calls s') = Suc (length (calls s))))"
proof -
  from assms have e: "elements (heap s) a = []" by (simp add: elements_def)
  from assms have w: "write_elements (heap s) a [] = heap s" by (rule write_elements_same)
  have p: "pop a st s =
           (case apply_setter st (V_ref a) s of Inl e \<Rightarrow> Inl e | Inr s' \<Rightarrow> Inr (V_undefined, s'))"
    by (simp add: pop_def Array_pop_def e w array_call_def split: sum.splits)
  have sh: "shift a st s =
           (case apply_setter st (V_ref a) s of Inl e \<Rightarrow> Inl e | Inr s' \<Rightarrow> Inr (V_undefined, s'))"
    by (simp add: shift_def Array_shift_def e w array_call_def split: sum.splits)
  have "setter_ok (heap s) st \<longrightarrow>
            (\<exists>s'. pop a st s = Inr (V_undefined, s') \<and> shift a st s = Inr (V_undefined, s')
                 \<and> length (calls s') = Suc (length (calls s)))"
    using apply_setter_ok [of s st "V_ref a"] by (auto simp: p sh)
  with p sh show ?thesis by simp
qed

theorem pop_shift_empty_witness:
  "kind (cell_at [Cell K_plain [(''tags'', V_ref 1)], Cell (K_array []) []] 1)
     = (K_array [] :: int option kind)
   \<and> setter_ok [Cell K_plain [(''tags'', V_ref 1)], Cell (K_array []) [] :: int option cell]
        (SetKey 0 ''tags'' SetData)
   \<and> pop 1 (SetKey 0 ''tags'' SetData)
        \<lparr>heap = [Cell K_plain [(''tags'', V_ref 1)], Cell (K_array []) []], calls = []\<rparr>
     = Inr (V_undefined :: int option jsval,
            \<lparr>heap = [Cell K_plain [(''tags'', V_ref 1)], Cell (K_array []) []],
             calls = [V_ref 0]\<rparr>)
   \<and> shift 1 (SetKey 0 ''tags'' SetData)
        \<lparr>heap = [Cell K_plain [(''tags'', V_ref 1)], Cell (K_array []) []], calls = []\<rparr>
     = Inr (V_undefined :: int option jsval,
            \<lparr>heap = [Cell K_plain [(''tags'', V_ref 1)], Cell (K_array []) []],
             calls = [V_ref 0]\<rparr>)"
proof -
  let ?h = "[Cell K_plain [(''tags'', V_ref 1)], Cell (K_array []) []] :: int option heap"
  have k: "kind (cell_at (heap \<lparr>heap = ?h, calls = []\<rparr>) 1) = K_array []"
    by (simp add: cell_at_def)
  have ok: "setter_ok ?h (SetKey 0 ''tags'' SetData)"
    by (simp add: cell_at_def writable_def)
  have ap: "apply_setter (SetKey 0 ''tags'' SetData) (V_ref 1) \<lparr>heap = ?h, calls = []\<rparr>
              = Inr \<lparr>heap = ?h, calls = [V_ref 0]\<rparr>"
    by (simp add: eval_defs)
  from pop_shift_empty [OF k, of "SetKey 0 ''tags'' SetData"] ap
  have "pop 1 (SetKey 0 ''tags'' SetData) \<lparr>heap = ?h, calls = []\<rparr>
          = Inr (V_undefined, \<lparr>heap = ?h, calls = [V_ref 0]\<rparr>)"
       "shift 1 (SetKey 0 ''tags'' SetData) \<lparr>heap = ?h, calls = []\<rparr>
          = Inr (V_undefined, \<lparr>heap = ?h, calls = [V_ref 0]\<rparr>)"
    by simp_all
  with k ok show ?thesis by simp
qed

end
